theory Spec2Isabelle
  imports Complex_Main
begin

section \<open>Asks listing endpoint: \<^verbatim>\<open>get-orders-asks/v3.ts\<close>\<close>

text \<open>
  The endpoint validates a query object (the Joi schema of \<^verbatim>\<open>validate.query\<close>), assembles
  one SQL statement from it (\<^verbatim>\<open>handler\<close>), runs it, and projects the rows. Strings are byte
  strings. The helpers \<^verbatim>\<open>splitContinuation\<close>, \<^verbatim>\<open>buildContinuation\<close> and \<^verbatim>\<open>getNetAmount\<close>
  are imported by the file from \<^verbatim>\<open>@/common/utils\<close>; their definitions below follow the
  specification and say so.
\<close>

subsection \<open>Decimal values\<close>

text \<open>
  Prices and creation times reach the handler as non-negative decimal numbers: an unscaled
  integer and the number of digits after the point. \<open>numeric_text\<close> is what the JavaScript
  concatenation \<^verbatim>\<open>value + "_"\<close> writes, \<open>numeric_of_text\<close> is how a bound text parameter is
  read back when SQL compares it with a numeric column.
\<close>

datatype numeric = Numeric (unscaled: nat) (scale: nat)

definition numeric_value :: "numeric \<Rightarrow> rat" where
  "numeric_value n = of_nat (unscaled n) / 10 ^ scale n"

definition numeric_less :: "numeric \<Rightarrow> numeric \<Rightarrow> bool" where
  "numeric_less a b = (unscaled a * 10 ^ scale b < unscaled b * 10 ^ scale a)"

definition numeric_eq :: "numeric \<Rightarrow> numeric \<Rightarrow> bool" where
  "numeric_eq a b = (unscaled a * 10 ^ scale b = unscaled b * 10 ^ scale a)"

definition digit_char :: "nat \<Rightarrow> char" where
  "digit_char d = char_of (48 + d)"

function digits_of_nat :: "nat \<Rightarrow> string" where
  "digits_of_nat n =
     (if n < 10 then [digit_char n] else digits_of_nat (n div 10) @ [digit_char (n mod 10)])"
  by pat_completeness auto
termination
  by (relation "measure (\<lambda>n. n)") auto

declare digits_of_nat.simps [simp del]

fun fixed_digits :: "nat \<Rightarrow> nat \<Rightarrow> string" where
  "fixed_digits 0 m = []"
| "fixed_digits (Suc k) m = fixed_digits k (m div 10) @ [digit_char (m mod 10)]"

definition numeric_text :: "numeric \<Rightarrow> string" where
  "numeric_text n =
     digits_of_nat (unscaled n div 10 ^ scale n) @
     (if scale n = 0 then [] else CHR ''.'' # fixed_digits (scale n) (unscaled n mod 10 ^ scale n))"

definition digit :: "char \<Rightarrow> bool" where
  "digit c = (48 \<le> (of_char c :: nat) \<and> (of_char c :: nat) \<le> 57)"

definition digits_value :: "string \<Rightarrow> nat" where
  "digits_value ds = foldl (\<lambda>acc c. acc * 10 + (of_char c - 48)) 0 ds"

definition numeric_of_text :: "string \<Rightarrow> numeric option" where
  "numeric_of_text s =
     (let ip = takeWhile digit s; rest = dropWhile digit s in
      if ip = [] then None
      else (case rest of
              [] \<Rightarrow> Some (Numeric (digits_value ip) 0)
            | c # fp \<Rightarrow>
                if c = CHR ''.'' \<and> fp \<noteq> [] \<and> list_all digit fp
                then Some (Numeric (digits_value (ip @ fp)) (length fp))
                else None))"

text \<open>Text columns are compared byte by byte.\<close>

fun text_less :: "string \<Rightarrow> string \<Rightarrow> bool" where
  "text_less [] [] = False"
| "text_less [] (y # ys) = True"
| "text_less (x # xs) [] = False"
| "text_less (x # xs) (y # ys) =
     ((of_char x :: nat) < of_char y \<or> (x = y \<and> text_less xs ys))"

subsection \<open>Regular expressions\<close>

text \<open>
  The handler checks a decoded continuation against the literal
  \<^verbatim>\<open>/^\d+(.\d+)?_0x[a-f0-9]{64}$/\<close>. Expressions are matched by derivatives; the anchors
  \<^verbatim>\<open>^\<close> and \<^verbatim>\<open>$\<close> make the match one of the whole string.
\<close>

datatype rexp =
    Zero
  | One
  | Class "char \<Rightarrow> bool"
  | Alt rexp rexp
  | Seq rexp rexp
  | Star rexp

fun nullable :: "rexp \<Rightarrow> bool" where
  "nullable Zero = False"
| "nullable One = True"
| "nullable (Class p) = False"
| "nullable (Alt r s) = (nullable r \<or> nullable s)"
| "nullable (Seq r s) = (nullable r \<and> nullable s)"
| "nullable (Star r) = True"

fun deriv :: "char \<Rightarrow> rexp \<Rightarrow> rexp" where
  "deriv c Zero = Zero"
| "deriv c One = Zero"
| "deriv c (Class p) = (if p c then One else Zero)"
| "deriv c (Alt r s) = Alt (deriv c r) (deriv c s)"
| "deriv c (Seq r s) =
     (if nullable r then Alt (Seq (deriv c r) s) (deriv c s) else Seq (deriv c r) s)"
| "deriv c (Star r) = Seq (deriv c r) (Star r)"

fun matches :: "rexp \<Rightarrow> string \<Rightarrow> bool" where
  "matches r [] = nullable r"
| "matches r (c # cs) = matches (deriv c r) cs"

definition Plus :: "rexp \<Rightarrow> rexp" where
  "Plus r = Seq r (Star r)"

definition Opt :: "rexp \<Rightarrow> rexp" where
  "Opt r = Alt r One"

fun Lit :: "string \<Rightarrow> rexp" where
  "Lit [] = One"
| "Lit (c # cs) = Seq (Class (\<lambda>x. x = c)) (Lit cs)"

fun Times :: "nat \<Rightarrow> rexp \<Rightarrow> rexp" where
  "Times 0 r = One"
| "Times (Suc n) r = Seq r (Times n r)"

text \<open>\<^verbatim>\<open>[a-f0-9]\<close>, and \<^verbatim>\<open>.\<close>: any character but a line terminator.\<close>

definition hexlower :: "char \<Rightarrow> bool" where
  "hexlower c = (digit c \<or> (97 \<le> (of_char c :: nat) \<and> (of_char c :: nat) \<le> 102))"

definition anychar :: "char \<Rightarrow> bool" where
  "anychar c = (c \<noteq> CHR 0x0A \<and> c \<noteq> CHR 0x0D)"

definition continuation_regex :: rexp where
  "continuation_regex =
     Seq (Plus (Class digit))
       (Seq (Opt (Seq (Class anychar) (Plus (Class digit))))
         (Seq (Lit ''_0x'') (Times 64 (Class hexlower))))"

text \<open>The identifier part of the expression by itself: \<^verbatim>\<open>0x[a-f0-9]{64}\<close>.\<close>

definition order_id_shape :: "string \<Rightarrow> bool" where
  "order_id_shape i = (take 2 i = ''0x'' \<and> length i = 66 \<and> list_all hexlower (drop 2 i))"

text \<open>The language an expression denotes, to reason about \<open>matches\<close>.\<close>

definition cat :: "string set \<Rightarrow> string set \<Rightarrow> string set" where
  "cat A B = {u @ v | u v. u \<in> A \<and> v \<in> B}"

inductive_set rep :: "string set \<Rightarrow> string set" for A :: "string set" where
  rep_nil: "[] \<in> rep A"
| rep_step: "u \<in> A \<Longrightarrow> v \<in> rep A \<Longrightarrow> u @ v \<in> rep A"

fun lang :: "rexp \<Rightarrow> string set" where
  "lang Zero = {}"
| "lang One = {[]}"
| "lang (Class p) = {[c] | c. p c}"
| "lang (Alt r s) = lang r \<union> lang s"
| "lang (Seq r s) = cat (lang r) (lang s)"
| "lang (Star r) = rep (lang r)"

subsection \<open>Base64\<close>

definition base64_alphabet :: string where
  "base64_alphabet = ''ABCDEFGHIJKLMNOPQRSTUVWXYZabcdefghijklmnopqrstuvwxyz0123456789+/''"

definition sextet_char :: "nat \<Rightarrow> char" where
  "sextet_char n = base64_alphabet ! n"

fun index_of :: "char \<Rightarrow> string \<Rightarrow> nat option" where
  "index_of c [] = None"
| "index_of c (x # xs) = (if c = x then Some 0 else map_option Suc (index_of c xs))"

definition char_sextet :: "char \<Rightarrow> nat option" where
  "char_sextet c = index_of c base64_alphabet"

definition byte :: "char \<Rightarrow> nat" where
  "byte c = of_char c"

fun base64_encode :: "string \<Rightarrow> string" where
  "base64_encode [] = []"
| "base64_encode [a] =
     [sextet_char (byte a div 4), sextet_char (byte a mod 4 * 16), CHR ''='', CHR ''='']"
| "base64_encode [a, b] =
     [sextet_char (byte a div 4), sextet_char (byte a mod 4 * 16 + byte b div 16),
      sextet_char (byte b mod 16 * 4), CHR ''='']"
| "base64_encode (a # b # c # rest) =
     [sextet_char (byte a div 4), sextet_char (byte a mod 4 * 16 + byte b div 16),
      sextet_char (byte b mod 16 * 4 + byte c div 64), sextet_char (byte c mod 64)]
     @ base64_encode rest"

fun base64_decode :: "string \<Rightarrow> string option" where
  "base64_decode [] = Some []"
| "base64_decode (w # x # y # z # rest) =
     (case (char_sextet w, char_sextet x) of
        (Some p, Some q) \<Rightarrow>
          (if rest = [] \<and> y = CHR ''='' \<and> z = CHR ''='' then
             (if q mod 16 = 0 then Some [char_of (p * 4 + q div 16)] else None)
           else if rest = [] \<and> z = CHR ''='' then
             (case char_sextet y of
                Some r \<Rightarrow>
                  (if r mod 4 = 0
                   then Some [char_of (p * 4 + q div 16), char_of (q mod 16 * 16 + r div 4)]
                   else None)
              | None \<Rightarrow> None)
           else
             (case (char_sextet y, char_sextet z, base64_decode rest) of
                (Some r, Some s, Some bs) \<Rightarrow>
                  Some (char_of (p * 4 + q div 16) # char_of (q mod 16 * 16 + r div 4)
                        # char_of (r mod 4 * 64 + s) # bs)
              | _ \<Rightarrow> None))
      | _ \<Rightarrow> None)"
| "base64_decode _ = None"

subsection \<open>Errors\<close>

text \<open>
  A request that fails the Joi schema is answered before the handler runs. The keys of the
  schema, in the order it lists them:
\<close>

datatype key =
    Key_ids
  | Key_token
  | Key_maker
  | Key_contracts
  | Key_status
  | Key_includePrivate
  | Key_includeMetadata
  | Key_includeRawData
  | Key_sortBy
  | Key_continuation
  | Key_limit

text \<open>
  \<open>InvalidParameter k\<close> is the key \<open>k\<close> failing its own rule; \<open>InvalidSortForFilter\<close> is the
  \<^verbatim>\<open>sortBy\<close> key asking for \<^verbatim>\<open>price\<close> where its \<^verbatim>\<open>when("token", ...)\<close> rule allows only
  \<^verbatim>\<open>createdAt\<close>; \<open>InvalidFilterCombination\<close> is one of the object rules \<^verbatim>\<open>.or(...)\<close> and
  \<^verbatim>\<open>.with(...)\<close>. \<open>InvalidContinuation\<close> is raised by \<^verbatim>\<open>splitContinuation\<close>,
  \<open>UpstreamQueryFailure\<close> by the database call, \<open>ProjectionFailure\<close> by reading a field of a
  row that is not there; the handler's \<^verbatim>\<open>catch\<close> logs and rethrows each of them.
\<close>

datatype error =
    InvalidParameter key
  | InvalidFilterCombination
  | InvalidSortForFilter
  | InvalidContinuation
  | UpstreamQueryFailure
  | ProjectionFailure

subsection \<open>Continuation codec\<close>

text \<open>
  Modelled from the spec: \<^verbatim>\<open>buildContinuation\<close> of \<^verbatim>\<open>@/common/utils\<close> is not in the file.
  "Serialize the pair into an opaque token (reversible byte encoding, e.g. base64 of a
  delimiter-joined pair)": the handler joins the pair with \<^verbatim>\<open>"_"\<close> itself and passes the
  joined text.
\<close>

definition buildContinuation :: "string \<Rightarrow> string" where
  "buildContinuation c = base64_encode c"

text \<open>
  Modelled from the spec: \<^verbatim>\<open>splitContinuation\<close> of \<^verbatim>\<open>@/common/utils\<close> is not in the file.
  "Decode: parse token, validate against an expected shape; fail with InvalidContinuation on
  mismatch", where the error covers a "token undecodable or shape-mismatched". The pair is
  the text before the first delimiter and the text after it.
\<close>

definition splitContinuation :: "string \<Rightarrow> rexp \<Rightarrow> error + (string \<times> string)" where
  "splitContinuation c regEx =
     (case base64_decode c of
        None \<Rightarrow> Inl InvalidContinuation
      | Some decoded \<Rightarrow>
          if matches regEx decoded
          then Inr (takeWhile (\<lambda>x. x \<noteq> CHR ''_'') decoded,
                    drop 1 (dropWhile (\<lambda>x. x \<noteq> CHR ''_'') decoded))
          else Inl InvalidContinuation)"

subsection \<open>The query object\<close>

text \<open>
  \<^verbatim>\<open>request.query\<close> as it reaches the schema: a parameter given once is a string, one given
  several times is an array of strings, an absent one is \<open>None\<close>. A request carries only
  keys of the schema. For \<^verbatim>\<open>limit\<close> the record holds what Joi's number conversion reads in
  the parameter: a number, or none.
\<close>

datatype raw_value = Str string | Arr "string list"

datatype number_text = Not_a_number | Number rat

record request_query =
  raw_ids :: "raw_value option"
  raw_token :: "raw_value option"
  raw_maker :: "raw_value option"
  raw_contracts :: "raw_value option"
  raw_status :: "raw_value option"
  raw_includePrivate :: "raw_value option"
  raw_includeMetadata :: "raw_value option"
  raw_includeRawData :: "raw_value option"
  raw_sortBy :: "raw_value option"
  raw_continuation :: "raw_value option"
  raw_limit :: "number_text option"

text \<open>
  The \<^verbatim>\<open>regex\<close> table of \<^verbatim>\<open>@/common/utils\<close> is not in the file; the three patterns the
  schema takes from it are a parameter of the validation.
\<close>

record regex_table =
  regex_token :: "string \<Rightarrow> bool"
  regex_address :: "string \<Rightarrow> bool"
  regex_base64 :: "string \<Rightarrow> bool"

text \<open>The query object after validation, the one the handler reads.\<close>

datatype sort_by = Price | CreatedAt

datatype status_filter = Active | Inactive

datatype 'a one_or_many = Single 'a | Multiple "'a list"

record query =
  ids :: "string one_or_many option"
  token :: "string option"
  maker :: "string option"
  contracts :: "string one_or_many option"
  status :: "status_filter option"
  includePrivate :: "bool option"
  includeMetadata :: "bool option"
  includeRawData :: "bool option"
  sortBy :: "sort_by option"
  continuation :: "string option"
  limit :: "int option"

text \<open>\<^verbatim>\<open>.lowercase()\<close> converts the value before the pattern is tried.\<close>

definition lower_char :: "char \<Rightarrow> char" where
  "lower_char c =
     (if 65 \<le> (of_char c :: nat) \<and> (of_char c :: nat) \<le> 90 then char_of (of_char c + 32 :: nat)
      else c)"

definition lowercase :: "string \<Rightarrow> string" where
  "lowercase s = map lower_char s"

text \<open>
  The rule of each key. \<^verbatim>\<open>Joi.string()\<close> takes one string and not the empty one.

  \<^verbatim>\<open>ids: Joi.alternatives(Joi.string(), Joi.array().items(Joi.string()))\<close>
\<close>

definition validate_ids :: "raw_value option \<Rightarrow> error + string one_or_many option" where
  "validate_ids v =
     (case v of
        None \<Rightarrow> Inr None
      | Some (Str s) \<Rightarrow> if s = [] then Inl (InvalidParameter Key_ids) else Inr (Some (Single s))
      | Some (Arr xs) \<Rightarrow>
          if list_all (\<lambda>x. x \<noteq> []) xs then Inr (Some (Multiple xs))
          else Inl (InvalidParameter Key_ids))"

text \<open>
  \<^verbatim>\<open>token: Joi.string().lowercase().pattern(regex.token)\<close> and
  \<^verbatim>\<open>maker: Joi.string().lowercase().pattern(regex.address)\<close>
\<close>

definition validate_pattern :: "key \<Rightarrow> (string \<Rightarrow> bool) \<Rightarrow> raw_value option \<Rightarrow> error + string option" where
  "validate_pattern k pattern v =
     (case v of
        None \<Rightarrow> Inr None
      | Some (Str s) \<Rightarrow>
          if s \<noteq> [] \<and> pattern (lowercase s) then Inr (Some (lowercase s))
          else Inl (InvalidParameter k)
      | Some (Arr xs) \<Rightarrow> Inl (InvalidParameter k))"

text \<open>
  \<^verbatim>\<open>contracts: Joi.alternatives().try(Joi.array().max(50).items(Joi.string().lowercase().pattern(regex.address)), Joi.string().lowercase().pattern(regex.address))\<close>
\<close>

definition validate_contracts :: "regex_table \<Rightarrow> raw_value option \<Rightarrow> error + string one_or_many option" where
  "validate_contracts regex v =
     (case v of
        None \<Rightarrow> Inr None
      | Some (Arr xs) \<Rightarrow>
          if length xs \<le> 50 \<and> list_all (\<lambda>x. x \<noteq> [] \<and> regex_address regex (lowercase x)) xs
          then Inr (Some (Multiple (map lowercase xs)))
          else Inl (InvalidParameter Key_contracts)
      | Some (Str s) \<Rightarrow>
          if s \<noteq> [] \<and> regex_address regex (lowercase s) then Inr (Some (Single (lowercase s)))
          else Inl (InvalidParameter Key_contracts))"

text \<open>\<^verbatim>\<open>status: Joi.string().valid("active", "inactive")\<close>\<close>

definition validate_status :: "raw_value option \<Rightarrow> error + status_filter option" where
  "validate_status v =
     (case v of
        None \<Rightarrow> Inr None
      | Some (Str s) \<Rightarrow>
          if s = ''active'' then Inr (Some Active)
          else if s = ''inactive'' then Inr (Some Inactive)
          else Inl (InvalidParameter Key_status)
      | Some (Arr xs) \<Rightarrow> Inl (InvalidParameter Key_status))"

text \<open>
  \<^verbatim>\<open>Joi.boolean().default(false)\<close>: the strings \<^verbatim>\<open>true\<close> and \<^verbatim>\<open>false\<close>, in any case of
  letters, are converted.
\<close>

definition validate_boolean :: "key \<Rightarrow> raw_value option \<Rightarrow> error + bool" where
  "validate_boolean k v =
     (case v of
        None \<Rightarrow> Inr False
      | Some (Str s) \<Rightarrow>
          if lowercase s = ''true'' then Inr True
          else if lowercase s = ''false'' then Inr False
          else Inl (InvalidParameter k)
      | Some (Arr xs) \<Rightarrow> Inl (InvalidParameter k))"

text \<open>
  \<^verbatim>\<open>sortBy: Joi.string().when("token", { is: Joi.exist(), then: Joi.valid("price", "createdAt"), otherwise: Joi.valid("createdAt") }).default("createdAt")\<close>,
  read with the token that has been validated before it.
\<close>

definition validate_sortBy :: "string option \<Rightarrow> raw_value option \<Rightarrow> error + sort_by" where
  "validate_sortBy validated_token v =
     (case v of
        None \<Rightarrow> Inr CreatedAt
      | Some (Str s) \<Rightarrow>
          if s = ''createdAt'' then Inr CreatedAt
          else if s = ''price'' then
            (if validated_token \<noteq> None then Inr Price else Inl InvalidSortForFilter)
          else Inl (InvalidParameter Key_sortBy)
      | Some (Arr xs) \<Rightarrow> Inl (InvalidParameter Key_sortBy))"

text \<open>\<^verbatim>\<open>continuation: Joi.string().pattern(regex.base64)\<close>\<close>

definition validate_continuation :: "regex_table \<Rightarrow> raw_value option \<Rightarrow> error + string option" where
  "validate_continuation regex v =
     (case v of
        None \<Rightarrow> Inr None
      | Some (Str s) \<Rightarrow>
          if s \<noteq> [] \<and> regex_base64 regex s then Inr (Some s)
          else Inl (InvalidParameter Key_continuation)
      | Some (Arr xs) \<Rightarrow> Inl (InvalidParameter Key_continuation))"

text \<open>\<^verbatim>\<open>limit: Joi.number().integer().min(1).max(1000).default(50)\<close>\<close>

definition validate_limit :: "number_text option \<Rightarrow> error + int" where
  "validate_limit v =
     (case v of
        None \<Rightarrow> Inr 50
      | Some Not_a_number \<Rightarrow> Inl (InvalidParameter Key_limit)
      | Some (Number n) \<Rightarrow>
          if of_int \<lfloor>n\<rfloor> = n \<and> 1 \<le> n \<and> n \<le> 1000 then Inr \<lfloor>n\<rfloor>
          else Inl (InvalidParameter Key_limit))"

text \<open>
  Joi validates the keys in the order the schema lists them and stops at the first error.
  \<open>next_key\<close> passes a validated value on, or the first error out.
\<close>

definition next_key :: "error + 'a \<Rightarrow> ('a \<Rightarrow> error + 'b) \<Rightarrow> error + 'b" where
  "next_key validated rest = (case validated of Inl e \<Rightarrow> Inl e | Inr x \<Rightarrow> rest x)"

text \<open>The keys before \<^verbatim>\<open>sortBy\<close>: the filters and the three flags.\<close>

definition validate_filters :: "regex_table \<Rightarrow> request_query \<Rightarrow> error + query" where
  "validate_filters regex rq =
     next_key (validate_ids (raw_ids rq)) (\<lambda>v_ids.
     next_key (validate_pattern Key_token (regex_token regex) (raw_token rq)) (\<lambda>v_token.
     next_key (validate_pattern Key_maker (regex_address regex) (raw_maker rq)) (\<lambda>v_maker.
     next_key (validate_contracts regex (raw_contracts rq)) (\<lambda>v_contracts.
     next_key (validate_status (raw_status rq)) (\<lambda>v_status.
     next_key (validate_boolean Key_includePrivate (raw_includePrivate rq)) (\<lambda>v_private.
     next_key (validate_boolean Key_includeMetadata (raw_includeMetadata rq)) (\<lambda>v_metadata.
     next_key (validate_boolean Key_includeRawData (raw_includeRawData rq)) (\<lambda>v_raw.
     Inr \<lparr>ids = v_ids, token = v_token, maker = v_maker, contracts = v_contracts,
          status = v_status, includePrivate = Some v_private,
          includeMetadata = Some v_metadata, includeRawData = Some v_raw,
          sortBy = None, continuation = None, limit = None\<rparr>))))))))"

text \<open>Then \<^verbatim>\<open>sortBy\<close>, \<^verbatim>\<open>continuation\<close> and \<^verbatim>\<open>limit\<close>.\<close>

definition validate_keys :: "regex_table \<Rightarrow> request_query \<Rightarrow> error + query" where
  "validate_keys regex rq =
     next_key (validate_filters regex rq) (\<lambda>filters.
     next_key (validate_sortBy (token filters) (raw_sortBy rq)) (\<lambda>v_sortBy.
     next_key (validate_continuation regex (raw_continuation rq)) (\<lambda>v_continuation.
     next_key (validate_limit (raw_limit rq)) (\<lambda>v_limit.
     Inr (filters\<lparr>sortBy := Some v_sortBy, continuation := v_continuation,
                    limit := Some v_limit\<rparr>)))))"

text \<open>
  The object rules \<^verbatim>\<open>.or("ids", "token", "contracts", "maker")\<close> and
  \<^verbatim>\<open>.with("status", "maker")\<close> are checked after all keys, in that order.
\<close>

definition validate_query :: "regex_table \<Rightarrow> request_query \<Rightarrow> error + query" where
  "validate_query regex rq =
     next_key (validate_keys regex rq) (\<lambda>q.
       if ids q = None \<and> token q = None \<and> contracts q = None \<and> maker q = None
         then Inl InvalidFilterCombination
       else if status q \<noteq> None \<and> maker q = None then Inl InvalidFilterCombination
       else Inr q)"

subsection \<open>The assembled statement\<close>

text \<open>
  Each entry of the handler's \<^verbatim>\<open>conditions\<close> array, with the values bound to it:
  \<^item> \<open>Side_sell\<close>: \<^verbatim>\<open>orders.side = 'sell'\<close>
  \<^item> \<open>Id_in\<close>, \<open>Id_eq\<close>: \<^verbatim>\<open>orders.id IN ($/ids:csv/)\<close>, \<^verbatim>\<open>orders.id = $/ids/\<close>
  \<^item> \<open>Token_set_id_eq\<close>: \<^verbatim>\<open>orders.token_set_id = $/tokenSetId/\<close>
  \<^item> \<open>Contract_in\<close>: \<^verbatim>\<open>orders.contract IN ($/contractsFilter:raw/)\<close>
  \<^item> \<open>Maker_eq\<close>: \<^verbatim>\<open>orders.maker = $/maker/\<close>
  \<^item> \<open>Taker_public\<close>: \<^verbatim>\<open>orders.taker = '\x0000000000000000000000000000000000000000' OR orders.taker IS NULL\<close>
  \<^item> \<open>Fillable_approved\<close>: \<^verbatim>\<open>orders.fillability_status = 'fillable' AND orders.approval_status = 'approved'\<close>
  \<^item> \<open>Potentially_valid\<close>: \<^verbatim>\<open>orders.fillability_status = 'no-balance' OR (orders.fillability_status = 'fillable' AND orders.approval_status != 'approved')\<close>
  \<^item> \<open>Price_id_gt\<close>: \<^verbatim>\<open>(orders.price, orders.id) > ($/priceOrCreatedAt/, $/id/)\<close>
  \<^item> \<open>Created_at_id_lt\<close>: \<^verbatim>\<open>(orders.created_at, orders.id) < (to_timestamp($/priceOrCreatedAt/), $/id/)\<close>
\<close>

datatype condition =
    Side_sell
  | Id_in "string list"
  | Id_eq string
  | Token_set_id_eq string
  | Contract_in "string list"
  | Maker_eq string
  | Taker_public
  | Fillable_approved
  | Potentially_valid
  | Price_id_gt string string
  | Created_at_id_lt string string

datatype sort_column = Orders_price | Orders_created_at | Orders_id

datatype direction = ASC | DESC

record sql_query =
  sql_where :: "condition list"
  sql_order_by :: "(sort_column \<times> direction) list"
  sql_limit :: "int option"

text \<open>The filters, in the order the handler pushes them (lines 280 to 333).\<close>

definition conditions :: "query \<Rightarrow> condition list" where
  "conditions query =
     [Side_sell]
     @ (case ids query of
          Some (Multiple xs) \<Rightarrow> [Id_in xs]
        | Some (Single x) \<Rightarrow> [Id_eq x]
        | None \<Rightarrow> [])
     @ (case token query of
          Some t \<Rightarrow> [Token_set_id_eq (''token:'' @ t)]
        | None \<Rightarrow> [])
     @ (case contracts query of
          Some (Multiple cs) \<Rightarrow> [Contract_in cs]
        | Some (Single c) \<Rightarrow> [Contract_in [c]]
        | None \<Rightarrow> [])
     @ (case maker query of
          Some m \<Rightarrow> [Maker_eq m]
        | None \<Rightarrow> [])
     @ (if includePrivate query = Some True then [] else [Taker_public])"

text \<open>
  \<^verbatim>\<open>orderStatusFilter\<close> starts as the fillable and approved predicate; only inside
  \<^verbatim>\<open>if (query.maker)\<close> the \<^verbatim>\<open>switch (query.status)\<close> replaces it, in its one case
  \<^verbatim>\<open>"inactive"\<close>.
\<close>

definition orderStatusFilter :: "query \<Rightarrow> condition" where
  "orderStatusFilter query =
     (case maker query of
        Some m \<Rightarrow>
          (case status query of
             Some Inactive \<Rightarrow> Potentially_valid
           | _ \<Rightarrow> Fillable_approved)
      | None \<Rightarrow> Fillable_approved)"

definition order_by :: "query \<Rightarrow> (sort_column \<times> direction) list" where
  "order_by query =
     (if sortBy query = Some Price
      then [(Orders_price, ASC), (Orders_id, ASC)]
      else [(Orders_created_at, DESC), (Orders_id, DESC)])"

text \<open>
  Lines 337 to 352: with a continuation, the decoded pair becomes the parameters
  \<^verbatim>\<open>priceOrCreatedAt\<close> and \<^verbatim>\<open>id\<close> of one more condition; a throw of \<^verbatim>\<open>splitContinuation\<close>
  leaves the handler.
\<close>

definition pagination :: "query \<Rightarrow> error + condition list" where
  "pagination query =
     (case continuation query of
        None \<Rightarrow> Inr []
      | Some c \<Rightarrow>
          (case splitContinuation c continuation_regex of
             Inl e \<Rightarrow> Inl e
           | Inr (priceOrCreatedAt, cid) \<Rightarrow>
               if sortBy query = Some Price
               then Inr [Price_id_gt priceOrCreatedAt cid]
               else Inr [Created_at_id_lt priceOrCreatedAt cid]))"

text \<open>
  \<^verbatim>\<open>query.limit = Math.min(query.limit, 100)\<close>; without a limit the minimum is not a number,
  which is \<open>None\<close> here.
\<close>

definition build_query :: "query \<Rightarrow> error + sql_query" where
  "build_query query =
     (case pagination query of
        Inl e \<Rightarrow> Inl e
      | Inr page \<Rightarrow>
          Inr \<lparr>sql_where = conditions query @ [orderStatusFilter query] @ page,
               sql_order_by = order_by query,
               sql_limit = map_option (\<lambda>l. min l 100) (limit query)\<rparr>)"

subsection \<open>The orders table and the statement's result\<close>

text \<open>
  The columns of \<^verbatim>\<open>orders\<close> that the statement filters, sorts or computes with; addresses are
  in the \<^verbatim>\<open>0x\<close> text form that \<^verbatim>\<open>fromBuffer\<close> and \<^verbatim>\<open>toBuffer\<close> convert from and to, and
  \<open>orders_created_at\<close> is the creation time in epoch seconds, the scale on which
  \<^verbatim>\<open>extract(epoch from ...)\<close> reads it and \<^verbatim>\<open>to_timestamp\<close> writes it. The columns that are
  only passed through (validity interval, fee breakdown, raw data, metadata, source) are
  left out. The contract and the taker of an order may be null, and so may its currency and
  its currency price.
\<close>

record order_row =
  orders_id :: string
  orders_kind :: string
  orders_side :: string
  orders_token_set_id :: string
  orders_contract :: "string option"
  orders_maker :: string
  orders_taker :: "string option"
  orders_currency :: "string option"
  orders_price :: numeric
  orders_currency_price :: "numeric option"
  orders_fee_bps :: int
  orders_fillability_status :: string
  orders_approval_status :: string
  orders_created_at :: numeric

record raw_row =
  r_id :: string
  r_kind :: string
  r_side :: string
  r_token_set_id :: string
  r_contract :: "string option"
  r_maker :: string
  r_taker :: "string option"
  r_currency :: "string option"
  r_price :: numeric
  r_currency_price :: "numeric option"
  r_fee_bps :: int
  r_created_at :: numeric
  r_status :: string

text \<open>
  The status column of the projection (lines 263 to 272):
  \<^verbatim>\<open>CASE WHEN orders.fillability_status = 'filled' THEN 'filled' ... ELSE 'active' END\<close>.
\<close>

definition status_case :: "string \<Rightarrow> string \<Rightarrow> string" where
  "status_case fillability_status approval_status =
     (if fillability_status = ''filled'' then ''filled''
      else if fillability_status = ''cancelled'' then ''cancelled''
      else if fillability_status = ''expired'' then ''expired''
      else if fillability_status = ''no-balance'' then ''inactive''
      else if approval_status = ''no-approval'' then ''inactive''
      else ''active'')"

definition select_row :: "order_row \<Rightarrow> raw_row" where
  "select_row o_row =
     \<lparr>r_id = orders_id o_row,
      r_kind = orders_kind o_row,
      r_side = orders_side o_row,
      r_token_set_id = orders_token_set_id o_row,
      r_contract = orders_contract o_row,
      r_maker = orders_maker o_row,
      r_taker = orders_taker o_row,
      r_currency = orders_currency o_row,
      r_price = orders_price o_row,
      r_currency_price = orders_currency_price o_row,
      r_fee_bps = orders_fee_bps o_row,
      r_created_at = orders_created_at o_row,
      r_status = status_case (orders_fillability_status o_row) (orders_approval_status o_row)\<rparr>"

definition zero_address :: string where
  "zero_address = ''0x0000000000000000000000000000000000000000''"

text \<open>
  A condition over a row. A row comparison \<^verbatim>\<open>(a, b) > (c, d)\<close> is \<^verbatim>\<open>a > c OR (a = c AND b > d)\<close>;
  a comparison with a null column does not select the row.
\<close>

fun holds :: "condition \<Rightarrow> order_row \<Rightarrow> bool" where
  "holds Side_sell o_row = (orders_side o_row = ''sell'')"
| "holds (Id_in xs) o_row = (orders_id o_row \<in> set xs)"
| "holds (Id_eq x) o_row = (orders_id o_row = x)"
| "holds (Token_set_id_eq t) o_row = (orders_token_set_id o_row = t)"
| "holds (Contract_in cs) o_row =
     (case orders_contract o_row of Some c \<Rightarrow> c \<in> set cs | None \<Rightarrow> False)"
| "holds (Maker_eq m) o_row = (orders_maker o_row = m)"
| "holds Taker_public o_row =
     (orders_taker o_row = Some zero_address \<or> orders_taker o_row = None)"
| "holds Fillable_approved o_row =
     (orders_fillability_status o_row = ''fillable'' \<and> orders_approval_status o_row = ''approved'')"
| "holds Potentially_valid o_row =
     (orders_fillability_status o_row = ''no-balance'' \<or>
      (orders_fillability_status o_row = ''fillable'' \<and> orders_approval_status o_row \<noteq> ''approved''))"
| "holds (Price_id_gt k cid) o_row =
     (case numeric_of_text k of
        Some v \<Rightarrow>
          numeric_less v (orders_price o_row) \<or>
          (numeric_eq v (orders_price o_row) \<and> text_less cid (orders_id o_row))
      | None \<Rightarrow> False)"
| "holds (Created_at_id_lt k cid) o_row =
     (case numeric_of_text k of
        Some v \<Rightarrow>
          numeric_less (orders_created_at o_row) v \<or>
          (numeric_eq (orders_created_at o_row) v \<and> text_less (orders_id o_row) cid)
      | None \<Rightarrow> False)"

text \<open>
  The statement is refused when a parameter cannot be read as the type it is compared with, or
  when a list is formatted to nothing (\<^verbatim>\<open>IN ()\<close>).
\<close>

fun well_formed :: "condition \<Rightarrow> bool" where
  "well_formed (Id_in xs) = (xs \<noteq> [])"
| "well_formed (Contract_in cs) = (cs \<noteq> [])"
| "well_formed (Price_id_gt k cid) = (numeric_of_text k \<noteq> None)"
| "well_formed (Created_at_id_lt k cid) = (numeric_of_text k \<noteq> None)"
| "well_formed _ = True"

text \<open>\<^verbatim>\<open>ORDER BY\<close>: the columns are compared in turn, each in its direction.\<close>

record sort_key =
  key_price :: numeric
  key_created_at :: numeric
  key_id :: string

definition row_key :: "order_row \<Rightarrow> sort_key" where
  "row_key o_row =
     \<lparr>key_price = orders_price o_row, key_created_at = orders_created_at o_row,
      key_id = orders_id o_row\<rparr>"

fun column_less :: "sort_column \<Rightarrow> sort_key \<Rightarrow> sort_key \<Rightarrow> bool" where
  "column_less Orders_price a b = numeric_less (key_price a) (key_price b)"
| "column_less Orders_created_at a b = numeric_less (key_created_at a) (key_created_at b)"
| "column_less Orders_id a b = text_less (key_id a) (key_id b)"

fun column_eq :: "sort_column \<Rightarrow> sort_key \<Rightarrow> sort_key \<Rightarrow> bool" where
  "column_eq Orders_price a b = numeric_eq (key_price a) (key_price b)"
| "column_eq Orders_created_at a b = numeric_eq (key_created_at a) (key_created_at b)"
| "column_eq Orders_id a b = (key_id a = key_id b)"

fun sorts_before :: "(sort_column \<times> direction) list \<Rightarrow> sort_key \<Rightarrow> sort_key \<Rightarrow> bool" where
  "sorts_before [] a b = False"
| "sorts_before ((c, d) # rest) a b =
     ((case d of ASC \<Rightarrow> column_less c a b | DESC \<Rightarrow> column_less c b a) \<or>
      (column_eq c a b \<and> sorts_before rest a b))"

fun insert_row :: "(sort_column \<times> direction) list \<Rightarrow> order_row \<Rightarrow> order_row list \<Rightarrow> order_row list" where
  "insert_row ob x [] = [x]"
| "insert_row ob x (y # ys) =
     (if sorts_before ob (row_key y) (row_key x) then y # insert_row ob x ys else x # y # ys)"

definition order_rows :: "(sort_column \<times> direction) list \<Rightarrow> order_row list \<Rightarrow> order_row list" where
  "order_rows ob rows = foldr (insert_row ob) rows []"

text \<open>\<^verbatim>\<open>redb.manyOrNone(baseQuery, query)\<close> over the rows of the table.\<close>

definition manyOrNone :: "sql_query \<Rightarrow> order_row list \<Rightarrow> error + raw_row list" where
  "manyOrNone sq orders =
     (if \<not> list_all well_formed (sql_where sq) then Inl UpstreamQueryFailure
      else (case sql_limit sq of
              None \<Rightarrow> Inl UpstreamQueryFailure
            | Some l \<Rightarrow>
                if l < 0 then Inl UpstreamQueryFailure
                else Inr (map select_row
                       (take (nat l)
                          (order_rows (sql_order_by sq)
                             (filter (\<lambda>o_row. list_all (\<lambda>c. holds c o_row) (sql_where sq)) orders))))))"

subsection \<open>The next continuation\<close>

text \<open>
  Lines 372 to 383. \<^verbatim>\<open>query.limit\<close> is by now the clamped limit, the one the statement ran
  with. Reading the last row of an empty result throws.
\<close>

definition sort_key_text :: "query \<Rightarrow> raw_row \<Rightarrow> string" where
  "sort_key_text query r =
     (if sortBy query = Some Price then numeric_text (r_price r) else numeric_text (r_created_at r))"

definition next_continuation :: "query \<Rightarrow> sql_query \<Rightarrow> raw_row list \<Rightarrow> error + string option" where
  "next_continuation query sq rawResult =
     (if Some (int (length rawResult)) = sql_limit sq then
        (if rawResult = [] then Inl ProjectionFailure
         else Inr (Some (buildContinuation
                (sort_key_text query (last rawResult) @ ''_'' @ r_id (last rawResult)))))
      else Inr None)"

subsection \<open>Projection of a row\<close>

text \<open>
  Modelled from the spec: \<^verbatim>\<open>getNetAmount\<close> of \<^verbatim>\<open>@/common/utils\<close> is not in the file.
  "net = gross \<times> (10000 \<minus> feeBps) / 10000, applied identically to native and
  currency-denominated amounts"; the amounts are exact.
\<close>

definition getNetAmount :: "rat \<Rightarrow> int \<Rightarrow> rat" where
  "getNetAmount val bps = val * (10000 - of_int bps) / 10000"

record price_amounts =
  amount :: rat
  nativeAmount :: rat

record prices =
  gross :: price_amounts
  net :: price_amounts

text \<open>
  The first argument the handler builds for \<^verbatim>\<open>getJoiPriceObject\<close> (lines 405 to 415);
  \<^verbatim>\<open>a ?? b\<close> is \<^verbatim>\<open>b\<close> when \<^verbatim>\<open>a\<close> is null. What \<^verbatim>\<open>getJoiPriceObject\<close>, which is not
  in the file, makes of the amounts and of the currency address is not part of the record
  below, nor are the fields the projection only copies or formats (schema hash, validity,
  source, fee breakdown, dates, raw data, metadata).
\<close>

definition price_argument :: "raw_row \<Rightarrow> prices" where
  "price_argument r =
     (let currency_price_or_price =
            (case r_currency_price r of Some c \<Rightarrow> c | None \<Rightarrow> r_price r)
      in \<lparr>gross = \<lparr>amount = numeric_value currency_price_or_price,
                    nativeAmount = numeric_value (r_price r)\<rparr>,
           net = \<lparr>amount = getNetAmount (numeric_value currency_price_or_price) (r_fee_bps r),
                  nativeAmount = getNetAmount (numeric_value (r_price r)) (r_fee_bps r)\<rparr>\<rparr>)"

text \<open>
  Modelled from the spec: \<^verbatim>\<open>fromBuffer\<close> of \<^verbatim>\<open>@/common/utils\<close> is not in the file. It writes a
  binary column as \<^verbatim>\<open>0x\<close> text; "unexpected null/shape in a row during result assembly" is a
  ProjectionFailure. The columns are kept in that text form already, so only the null matters.
\<close>

definition fromBuffer :: "string option \<Rightarrow> error + string" where
  "fromBuffer buffer = (case buffer of None \<Rightarrow> Inl ProjectionFailure | Some a \<Rightarrow> Inr a)"

record order_json =
  order_id :: string
  kind :: string
  side :: string
  order_status :: string
  tokenSetId :: string
  contract :: string
  order_maker :: string
  taker :: string
  price :: prices
  feeBps :: int

text \<open>
  Lines 395 to 437, for the fields kept here. \<^verbatim>\<open>fromBuffer(r.contract)\<close> and
  \<^verbatim>\<open>fromBuffer(r.taker)\<close> are evaluated for every row, a null column or not.
\<close>

definition project :: "raw_row \<Rightarrow> error + order_json" where
  "project r =
     (case fromBuffer (r_contract r) of
        Inl e \<Rightarrow> Inl e
      | Inr v_contract \<Rightarrow>
          (case fromBuffer (r_taker r) of
             Inl e \<Rightarrow> Inl e
           | Inr v_taker \<Rightarrow>
               Inr \<lparr>order_id = r_id r,
                    kind = r_kind r,
                    side = r_side r,
                    order_status = r_status r,
                    tokenSetId = r_token_set_id r,
                    contract = v_contract,
                    order_maker = r_maker r,
                    taker = v_taker,
                    price = price_argument r,
                    feeBps = r_fee_bps r\<rparr>))"

text \<open>\<^verbatim>\<open>Promise.all(rawResult.map(...))\<close>: every row is projected, and one failure fails all.\<close>

fun project_all :: "raw_row list \<Rightarrow> error + order_json list" where
  "project_all [] = Inr []"
| "project_all (r # rs) =
     (case project r of
        Inl e \<Rightarrow> Inl e
      | Inr j \<Rightarrow> (case project_all rs of Inl e \<Rightarrow> Inl e | Inr js \<Rightarrow> Inr (j # js)))"

subsection \<open>The endpoint\<close>

record response =
  orders :: "order_json list"
  next_token :: "string option"

text \<open>
  The handler after validation: the statement, its rows, the continuation for the next page,
  then the projection. The check of the response against \<^verbatim>\<open>response.schema\<close>, which rests on
  the \<^verbatim>\<open>regex\<close> table and on \<^verbatim>\<open>JoiPrice\<close> of other files, is not part of it.
\<close>

definition handler_rows :: "order_row list \<Rightarrow> query \<Rightarrow> error + (raw_row list \<times> string option)" where
  "handler_rows table query =
     (case build_query query of
        Inl e \<Rightarrow> Inl e
      | Inr sq \<Rightarrow>
          (case manyOrNone sq table of
             Inl e \<Rightarrow> Inl e
           | Inr rawResult \<Rightarrow>
               (case next_continuation query sq rawResult of
                  Inl e \<Rightarrow> Inl e
                | Inr c \<Rightarrow> Inr (rawResult, c))))"

definition handler :: "order_row list \<Rightarrow> query \<Rightarrow> error + response" where
  "handler table query =
     (case handler_rows table query of
        Inl e \<Rightarrow> Inl e
      | Inr (rawResult, c) \<Rightarrow>
          (case project_all rawResult of
             Inl e \<Rightarrow> Inl e
           | Inr projected \<Rightarrow> Inr \<lparr>orders = projected, next_token = c\<rparr>))"

definition get_orders_asks :: "regex_table \<Rightarrow> order_row list \<Rightarrow> request_query \<Rightarrow> error + response" where
  "get_orders_asks regex table rq =
     (case validate_query regex rq of
        Inl e \<Rightarrow> Inl e
      | Inr query \<Rightarrow> handler table query)"

subsection \<open>The status precedence as the specification words it\<close>

text \<open>
  "Rule, in order: fillability=filled gives filled; fillability=cancelled gives cancelled;
  fillability=expired gives expired; fillability=no-balance gives inactive;
  approval=no-approval gives inactive; else active." The first rule that applies decides.
\<close>

definition status_precedence :: "((string \<Rightarrow> string \<Rightarrow> bool) \<times> string) list" where
  "status_precedence =
     [(\<lambda>fillability approval. fillability = ''filled'', ''filled''),
      (\<lambda>fillability approval. fillability = ''cancelled'', ''cancelled''),
      (\<lambda>fillability approval. fillability = ''expired'', ''expired''),
      (\<lambda>fillability approval. fillability = ''no-balance'', ''inactive''),
      (\<lambda>fillability approval. approval = ''no-approval'', ''inactive'')]"

fun first_rule :: "((string \<Rightarrow> string \<Rightarrow> bool) \<times> string) list \<Rightarrow> string \<Rightarrow> string \<Rightarrow> string \<Rightarrow> string" where
  "first_rule [] fillability approval otherwise = otherwise"
| "first_rule ((applies, label) # rules) fillability approval otherwise =
     (if applies fillability approval then label
      else first_rule rules fillability approval otherwise)"

definition derived_status :: "string \<Rightarrow> string \<Rightarrow> string" where
  "derived_status fillability approval = first_rule status_precedence fillability approval ''active''"

text \<open>The two forms of \<^verbatim>\<open>orderStatusFilter\<close> among the conditions.\<close>

fun is_status_predicate :: "condition \<Rightarrow> bool" where
  "is_status_predicate Fillable_approved = True"
| "is_status_predicate Potentially_valid = True"
| "is_status_predicate _ = False"

subsection \<open>Auxiliary notions for the properties\<close>

text \<open>The sort key of a returned row, the conditions that anchor a scan, and the page size
  a request asks for (\<^verbatim>\<open>default(50)\<close>).\<close>

definition result_key :: "raw_row \<Rightarrow> sort_key" where
  "result_key r = \<lparr>key_price = r_price r, key_created_at = r_created_at r, key_id = r_id r\<rparr>"


definition requested_limit :: "request_query \<Rightarrow> int" where
  "requested_limit rq = (case raw_limit rq of Some (Number n) \<Rightarrow> \<lfloor>n\<rfloor> | _ \<Rightarrow> 50)"

subsection \<open>Example data\<close>

definition example_contract :: string where
  "example_contract = ''0x8d04a8c79ceb0889bdd12acdf3fa9d207ed3ff63''"

definition example_maker :: string where
  "example_maker = ''0xf296178d553c8ec21a2fbd2c5dda8ca9ac905a00''"

definition id_a :: string where
  "id_a = ''0xaaaaaaaaaaaaaaaaaaaaaaaaaaaaaaaaaaaaaaaaaaaaaaaaaaaaaaaaaaaaaaaa''"

definition id_b :: string where
  "id_b = ''0xbbbbbbbbbbbbbbbbbbbbbbbbbbbbbbbbbbbbbbbbbbbbbbbbbbbbbbbbbbbbbbbb''"

definition id_c :: string where
  "id_c = ''0xcccccccccccccccccccccccccccccccccccccccccccccccccccccccccccccccc''"

definition example_order :: "string \<Rightarrow> nat \<Rightarrow> numeric \<Rightarrow> order_row" where
  "example_order i p t =
     \<lparr>orders_id = i, orders_kind = ''seaport'', orders_side = ''sell'',
      orders_token_set_id = ''token:'' @ example_contract @ '':123'',
      orders_contract = Some example_contract, orders_maker = example_maker,
      orders_taker = Some zero_address, orders_currency = None, orders_price = Numeric p 0,
      orders_currency_price = None, orders_fee_bps = 250,
      orders_fillability_status = ''fillable'', orders_approval_status = ''approved'',
      orders_created_at = t\<rparr>"

definition example_table :: "order_row list" where
  "example_table =
     [example_order id_b 2 (Numeric 17001 1), example_order id_a 1 (Numeric 17002 1),
      example_order id_c 2 (Numeric 17003 1)]"

text \<open>
  A table of patterns to run the validation with: an address is \<^verbatim>\<open>0x\<close> and 40 hex digits, a
  token an address, a colon and digits, base64 text is of the base64 alphabet with up to two
  padding characters.
\<close>

definition address_rexp :: rexp where
  "address_rexp = Seq (Lit ''0x'') (Times 40 (Class hexlower))"

definition example_regex :: regex_table where
  "example_regex =
     \<lparr>regex_token = matches (Seq address_rexp (Seq (Lit '':'') (Plus (Class digit)))),
      regex_address = matches address_rexp,
      regex_base64 =
        matches (Seq (Star (Class (\<lambda>c. c \<in> set base64_alphabet)))
                   (Alt One (Alt (Lit ''='') (Lit ''==''))))\<rparr>"

definition no_parameters :: request_query where
  "no_parameters =
     \<lparr>raw_ids = None, raw_token = None, raw_maker = None, raw_contracts = None,
      raw_status = None, raw_includePrivate = None, raw_includeMetadata = None,
      raw_includeRawData = None, raw_sortBy = None, raw_continuation = None,
      raw_limit = None\<rparr>"

definition token_request :: request_query where
  "token_request = no_parameters\<lparr>raw_token := Some (Str (example_contract @ '':123''))\<rparr>"

definition no_filters :: query where
  "no_filters =
     \<lparr>ids = None, token = None, maker = None, contracts = None, status = None,
      includePrivate = None, includeMetadata = None, includeRawData = None, sortBy = None,
      continuation = None, limit = None\<rparr>"

definition by_token :: query where
  "by_token = no_filters\<lparr>token := Some (example_contract @ '':123'')\<rparr>"

definition price_page :: query where
  "price_page =
     by_token\<lparr>includePrivate := Some False, includeMetadata := Some False,
       includeRawData := Some False, sortBy := Some Price, limit := Some 2\<rparr>"

definition created_page :: query where
  "created_page =
     by_token\<lparr>includePrivate := Some False, includeMetadata := Some False,
       includeRawData := Some False, sortBy := Some CreatedAt, limit := Some 2\<rparr>"

definition token_b :: string where
  "token_b = ''Ml8weGJiYmJiYmJiYmJiYmJiYmJiYmJiYmJiYmJiYmJiYmJiYmJiYmJiYmJiYmJiYmJiYmJiYmJiYmJiYmJiYmJiYmI=''"

definition token_a :: string where
  "token_a = ''MTcwMC4yXzB4YWFhYWFhYWFhYWFhYWFhYWFhYWFhYWFhYWFhYWFhYWFhYWFhYWFhYWFhYWFhYWFhYWFhYWFhYWFhYWFhYWFhYQ==''"

definition token_order_1 :: string where
  "token_order_1 = ''MV9vcmRlci0x''"

definition page_sql :: "query \<Rightarrow> condition list \<Rightarrow> sql_query" where
  "page_sql query page =
     \<lparr>sql_where = [Side_sell, Token_set_id_eq (''token:'' @ example_contract @ '':123''),
                   Taker_public, Fillable_approved] @ page,
      sql_order_by = order_by query, sql_limit = Some 2\<rparr>"

definition row_100 :: raw_row where
  "row_100 = select_row (example_order id_a 100 (Numeric 17002 1))"

text \<open>The order that the projection makes of an example row, and a request for a first page
  of two orders by price.\<close>

definition example_json :: "string \<Rightarrow> nat \<Rightarrow> numeric \<Rightarrow> order_json" where
  "example_json i p t =
     \<lparr>order_id = i, kind = ''seaport'', side = ''sell'', order_status = ''active'',
      tokenSetId = ''token:'' @ example_contract @ '':123'', contract = example_contract,
      order_maker = example_maker, taker = zero_address,
      price = price_argument (select_row (example_order i p t)), feeBps = 250\<rparr>"

definition price_request :: request_query where
  "price_request =
     token_request\<lparr>raw_sortBy := Some (Str ''price''), raw_limit := Some (Number 2)\<rparr>"

section \<open>Properties\<close>

subsection \<open>Matching and the language\<close>

lemma nullable_lang: "nullable r \<longleftrightarrow> [] \<in> lang r"
  by (induction r) (auto simp: cat_def intro: rep.rep_nil)

lemma cat_cons: "c # w \<in> cat A B \<longleftrightarrow>
    (\<exists>u v. w = u @ v \<and> c # u \<in> A \<and> v \<in> B) \<or> ([] \<in> A \<and> c # w \<in> B)"
proof
  assume "c # w \<in> cat A B"
  then obtain u v where uv: "c # w = u @ v" "u \<in> A" "v \<in> B"
    unfolding cat_def by blast
  show "(\<exists>u v. w = u @ v \<and> c # u \<in> A \<and> v \<in> B) \<or> ([] \<in> A \<and> c # w \<in> B)"
  proof (cases u)
    case Nil
    with uv show ?thesis by simp
  next
    case (Cons a u')
    with uv have "w = u' @ v" "c # u' \<in> A" by simp_all
    with uv(3) show ?thesis by blast
  qed
next
  assume "(\<exists>u v. w = u @ v \<and> c # u \<in> A \<and> v \<in> B) \<or> ([] \<in> A \<and> c # w \<in> B)"
  then show "c # w \<in> cat A B"
  proof
    assume "\<exists>u v. w = u @ v \<and> c # u \<in> A \<and> v \<in> B"
    then obtain u v where "w = u @ v" "c # u \<in> A" "v \<in> B" by blast
    then have "c # w = (c # u) @ v \<and> c # u \<in> A \<and> v \<in> B" by simp
    then show ?thesis unfolding cat_def by blast
  next
    assume "[] \<in> A \<and> c # w \<in> B"
    then have "c # w = [] @ (c # w) \<and> [] \<in> A \<and> c # w \<in> B" by simp
    then show ?thesis unfolding cat_def by blast
  qed
qed

lemma rep_cons_D: "w \<in> rep A \<Longrightarrow> w = c # t \<Longrightarrow> \<exists>u v. t = u @ v \<and> c # u \<in> A \<and> v \<in> rep A"
proof (induction arbitrary: t rule: rep.induct)
  case rep_nil
  then show ?case by simp
next
  case (rep_step u v)
  show ?case
  proof (cases u)
    case Nil
    with rep_step show ?thesis by simp
  next
    case (Cons a u')
    with rep_step show ?thesis by auto
  qed
qed

lemma rep_cons: "c # t \<in> rep A \<longleftrightarrow> (\<exists>u v. t = u @ v \<and> c # u \<in> A \<and> v \<in> rep A)"
proof
  assume "c # t \<in> rep A"
  then show "\<exists>u v. t = u @ v \<and> c # u \<in> A \<and> v \<in> rep A"
    by (rule rep_cons_D) simp
next
  assume "\<exists>u v. t = u @ v \<and> c # u \<in> A \<and> v \<in> rep A"
  then obtain u v where "t = u @ v" "c # u \<in> A" "v \<in> rep A" by blast
  then show "c # t \<in> rep A"
    using rep.rep_step [of "c # u" A v] by simp
qed

lemma deriv_lang: "w \<in> lang (deriv c r) \<longleftrightarrow> c # w \<in> lang r"
proof (induction r arbitrary: w)
  case (Seq r s)
  then show ?case
    by (simp add: cat_cons nullable_lang) (auto simp: cat_def)
next
  case (Star r)
  then show ?case
    by (simp add: rep_cons) (auto simp: cat_def)
qed auto

lemma matches_lang: "matches r w \<longleftrightarrow> w \<in> lang r"
  by (induction w arbitrary: r) (simp_all add: nullable_lang deriv_lang)

subsection \<open>Base64 decodes what it encodes\<close>

lemma index_of_nth: "distinct xs \<Longrightarrow> n < length xs \<Longrightarrow> index_of (xs ! n) xs = Some n"
proof (induction xs arbitrary: n)
  case Nil
  then show ?case by simp
next
  case (Cons x xs)
  show ?case
  proof (cases n)
    case 0
    then show ?thesis by simp
  next
    case (Suc m)
    with Cons.prems have "xs ! m \<noteq> x" "m < length xs" "distinct xs" by auto
    with Cons.IH [of m] Suc show ?thesis by simp
  qed
qed

lemma alphabet_distinct: "distinct base64_alphabet"
  by code_simp

lemma alphabet_length: "length base64_alphabet = 64"
  by code_simp

lemma char_sextet_char: "n < 64 \<Longrightarrow> char_sextet (sextet_char n) = Some n"
  unfolding char_sextet_def sextet_char_def
  by (rule index_of_nth [OF alphabet_distinct]) (simp add: alphabet_length)

lemma pad_not_in_alphabet: "CHR ''='' \<notin> set base64_alphabet"
  by code_simp

lemma sextet_char_not_pad: "n < 64 \<Longrightarrow> sextet_char n = CHR ''='' \<Longrightarrow> False"
proof -
  assume n: "n < 64" and eq: "sextet_char n = CHR ''=''"
  from n have "base64_alphabet ! n \<in> set base64_alphabet"
    by (simp add: alphabet_length)
  with eq pad_not_in_alphabet show False
    unfolding sextet_char_def by simp
qed

lemma byte_less: "byte c < 256"
  unfolding byte_def by simp

lemma char_of_byte: "char_of (byte c) = c"
  unfolding byte_def by simp

lemma sextet_not_pad: "n < 64 \<Longrightarrow> sextet_char n \<noteq> CHR ''=''"
  using sextet_char_not_pad by blast

lemma group_bounds:
  fixes a b c :: nat
  assumes "a < 256" "b < 256" "c < 256"
  shows "a div 4 < 64" "a mod 4 * 16 + b div 16 < 64" "b mod 16 * 4 + c div 64 < 64"
    "c mod 64 < 64" "a mod 4 * 16 < 64" "b mod 16 * 4 < 64"
  using assms by simp_all

lemma group_bytes:
  fixes a b c :: nat
  assumes "a < 256" "b < 256" "c < 256"
  shows "a div 4 * 4 + (a mod 4 * 16 + b div 16) div 16 = a"
    and "(a mod 4 * 16 + b div 16) mod 16 * 16 + (b mod 16 * 4 + c div 64) div 4 = b"
    and "(b mod 16 * 4 + c div 64) mod 4 * 64 + c mod 64 = c"
    and "a div 4 * 4 + (a mod 4 * 16) div 16 = a"
    and "(a mod 4 * 16) mod 16 = 0"
    and "(a mod 4 * 16 + b div 16) mod 16 * 16 + (b mod 16 * 4) div 4 = b"
    and "(b mod 16 * 4) mod 4 = 0"
  using assms by (simp_all add: div_mult2_eq)




lemma decode_pad2:
  assumes "p < 64" "q < 64" "q mod 16 = 0"
  shows "base64_decode [sextet_char p, sextet_char q, CHR ''='', CHR ''='']
         = Some [char_of (p * 4 + q div 16)]"
  using assms by (simp add: char_sextet_char)

lemma decode_pad1:
  assumes "p < 64" "q < 64" "r < 64" "r mod 4 = 0"
  shows "base64_decode [sextet_char p, sextet_char q, sextet_char r, CHR ''='']
         = Some [char_of (p * 4 + q div 16), char_of (q mod 16 * 16 + r div 4)]"
  using assms by (simp add: char_sextet_char sextet_not_pad)

lemma decode_group:
  assumes "p < 64" "q < 64" "r < 64" "s < 64"
  shows "base64_decode (sextet_char p # sextet_char q # sextet_char r # sextet_char s # rest)
         = (case base64_decode rest of
              Some bs \<Rightarrow> Some (char_of (p * 4 + q div 16) # char_of (q mod 16 * 16 + r div 4)
                        # char_of (r mod 4 * 64 + s) # bs)
            | None \<Rightarrow> None)"
  using assms by (simp add: char_sextet_char sextet_not_pad split: option.splits)


lemma base64_roundtrip: "base64_decode (base64_encode s) = Some s"
proof (induction s rule: base64_encode.induct)
  case 1
  show ?case by simp
next
  case (2 a)
  have a: "byte a < 256" by (rule byte_less)
  show ?case
    unfolding base64_encode.simps
    by (subst decode_pad2)
       (simp_all only: group_bounds [OF a a a] group_bytes [OF a a a] char_of_byte)
next
  case (3 a b)
  have a: "byte a < 256" and b: "byte b < 256" by (rule byte_less)+
  show ?case
    unfolding base64_encode.simps
    by (subst decode_pad1)
       (simp_all only: group_bounds [OF a b b] group_bytes [OF a b b] char_of_byte)
next
  case (4 a b c rest)
  have a: "byte a < 256" and b: "byte b < 256" and c: "byte c < 256" by (rule byte_less)+
  show ?case
    unfolding base64_encode.simps append_Cons append_Nil
    by (subst decode_group)
       (simp_all only: group_bounds [OF a b c] group_bytes [OF a b c] char_of_byte "4.IH"
          option.case)
qed

subsection \<open>The text of a decimal value and of a joined pair\<close>

lemma digit_char_digit: "d < 10 \<Longrightarrow> digit (digit_char d)"
  unfolding digit_def digit_char_def by simp

lemma digits_of_nat_digits: "list_all digit (digits_of_nat n)"
proof (induction n rule: digits_of_nat.induct)
  case (1 n)
  show ?case
  proof (cases "n < 10")
    case True
    then show ?thesis by (subst digits_of_nat.simps) (simp add: digit_char_digit)
  next
    case False
    with 1 show ?thesis by (subst digits_of_nat.simps) (simp add: digit_char_digit)
  qed
qed

lemma digits_of_nat_nonempty: "digits_of_nat n \<noteq> []"
  by (subst digits_of_nat.simps) simp

lemma fixed_digits_digits: "list_all digit (fixed_digits k m)"
  by (induction k m rule: fixed_digits.induct) (simp_all add: digit_char_digit)

lemma fixed_digits_length: "length (fixed_digits k m) = k"
  by (induction k m rule: fixed_digits.induct) simp_all

lemma class_rep: "list_all p xs \<Longrightarrow> xs \<in> rep (lang (Class p))"
proof (induction xs)
  case Nil
  show ?case by (rule rep.rep_nil)
next
  case (Cons x xs)
  then have "[x] \<in> lang (Class p)" "xs \<in> rep (lang (Class p))" by simp_all
  then have "[x] @ xs \<in> rep (lang (Class p))" by (rule rep.rep_step)
  then show ?case by simp
qed

lemma catI: "u \<in> A \<Longrightarrow> v \<in> B \<Longrightarrow> u @ v \<in> cat A B"
  unfolding cat_def by blast

lemma class_plus: "xs \<noteq> [] \<Longrightarrow> list_all p xs \<Longrightarrow> xs \<in> lang (Plus (Class p))"
proof (cases xs)
  case Nil
  assume "xs \<noteq> []"
  with Nil show ?thesis by simp
next
  case (Cons x t)
  assume "list_all p xs"
  with Cons have px: "p x" and pt: "list_all p t" by simp_all
  from px have "[x] \<in> lang (Class p)" by simp
  moreover from pt have "t \<in> rep (lang (Class p))" by (rule class_rep)
  ultimately have "[x] \<in> lang (Class p)" "t \<in> rep (lang (Class p))" .
  then have "[x] @ t \<in> cat (lang (Class p)) (rep (lang (Class p)))" by (rule catI)
  with Cons show ?thesis unfolding Plus_def by simp
qed

lemma lit_lang: "s \<in> lang (Lit s)"
proof (induction s)
  case Nil
  show ?case by simp
next
  case (Cons c s)
  have "[c] \<in> lang (Class (\<lambda>x. x = c))" by simp
  from catI [OF this Cons] show ?case by simp
qed

lemma class_times: "length xs = n \<Longrightarrow> list_all p xs \<Longrightarrow> xs \<in> lang (Times n (Class p))"
proof (induction xs arbitrary: n)
  case Nil
  then show ?case by simp
next
  case (Cons x xs)
  then obtain m where n: "n = Suc m" "length xs = m" by (cases n) auto
  from Cons.prems have "[x] \<in> lang (Class p)" "list_all p xs" by simp_all
  with Cons.IH [OF n(2)] have "[x] @ xs \<in> cat (lang (Class p)) (lang (Times m (Class p)))"
    by (intro catI)
  with n show ?case by simp
qed

lemma numeric_text_key: 
  "numeric_text n \<in> cat (lang (Plus (Class digit))) (lang (Opt (Seq (Class anychar) (Plus (Class digit)))))"
proof (cases "scale n = 0")
  case True
  have "digits_of_nat (unscaled n div 10 ^ scale n) @ [] \<in>
      cat (lang (Plus (Class digit))) (lang (Opt (Seq (Class anychar) (Plus (Class digit)))))"
    by (rule catI) (simp_all add: class_plus digits_of_nat_nonempty digits_of_nat_digits Opt_def)
  with True show ?thesis unfolding numeric_text_def by simp
next
  case False
  let ?f = "fixed_digits (scale n) (unscaled n mod 10 ^ scale n)"
  from False have "?f \<noteq> []" using fixed_digits_length [of "scale n" "unscaled n mod 10 ^ scale n"]
    by auto
  then have f: "?f \<in> lang (Plus (Class digit))"
    by (rule class_plus) (rule fixed_digits_digits)
  have "[CHR ''.''] \<in> lang (Class anychar)" by (simp add: anychar_def)
  from catI [OF this f] have "CHR ''.'' # ?f \<in> lang (Opt (Seq (Class anychar) (Plus (Class digit))))"
    by (simp add: Opt_def)
  then have "digits_of_nat (unscaled n div 10 ^ scale n) @ (CHR ''.'' # ?f) \<in>
      cat (lang (Plus (Class digit))) (lang (Opt (Seq (Class anychar) (Plus (Class digit)))))"
    by (intro catI class_plus digits_of_nat_nonempty digits_of_nat_digits)
  with False show ?thesis unfolding numeric_text_def by simp
qed

lemma cat_assoc: "cat (cat A B) C = cat A (cat B C)"
  unfolding cat_def
  apply (rule set_eqI)
  apply (rule iffI)
   apply clarify
  subgoal for x u v ua va by (rule exI [of _ ua], rule exI [of _ "va @ v"]) auto
  apply clarify
  subgoal for x u v ua va by (rule exI [of _ "u @ ua"], rule exI [of _ va]) auto
  done

lemma order_id_lang:
  assumes "order_id_shape i"
  shows "CHR ''_'' # i \<in> lang (Seq (Lit ''_0x'') (Times 64 (Class hexlower)))"
proof -
  from assms have t: "take 2 i = ''0x''" and l: "length i = 66"
    and h: "list_all hexlower (drop 2 i)"
    unfolding order_id_shape_def by simp_all
  have "i = take 2 i @ drop 2 i" by simp
  with t have i1: "i = ''0x'' @ drop 2 i" by simp
  from l have i2: "length (drop 2 i) = 64" by simp
  note i = i1 i2 h
  have "''_0x'' @ drop 2 i \<in> cat (lang (Lit ''_0x'')) (lang (Times 64 (Class hexlower)))"
    by (rule catI [OF lit_lang class_times]) (rule i)+
  moreover have "CHR ''_'' # i = ''_0x'' @ drop 2 i" using i(1) by simp
  ultimately show ?thesis by simp
qed

lemma joined_matches:
  assumes "order_id_shape i"
  shows "matches continuation_regex (numeric_text n @ ''_'' @ i)"
proof -
  have "numeric_text n @ (CHR ''_'' # i) \<in>
      cat (cat (lang (Plus (Class digit))) (lang (Opt (Seq (Class anychar) (Plus (Class digit))))))
        (lang (Seq (Lit ''_0x'') (Times 64 (Class hexlower))))"
    by (rule catI [OF numeric_text_key order_id_lang [OF assms]])
  then have "numeric_text n @ (CHR ''_'' # i) \<in> lang continuation_regex"
    unfolding continuation_regex_def by (simp add: cat_assoc)
  then show ?thesis by (simp add: matches_lang)
qed

subsection \<open>The assembled statement\<close>

lemma conditions_no_status: "filter is_status_predicate (conditions query) = []"
  unfolding conditions_def
  by (simp split: option.split one_or_many.split)

lemma orderStatusFilter_cases:
  "orderStatusFilter query =
     (if maker query \<noteq> None \<and> status query = Some Inactive then Potentially_valid
      else Fillable_approved)"
  unfolding orderStatusFilter_def
  by (simp split: option.split status_filter.split)

lemma pagination_no_status:
  "pagination query = Inr page \<Longrightarrow> filter is_status_predicate page = []"
  unfolding pagination_def
  by (auto split: option.splits sum.splits if_splits)

lemma build_query_where:
  "build_query query = Inr sq \<Longrightarrow>
     \<exists>page. pagination query = Inr page \<and>
       sql_where sq = conditions query @ [orderStatusFilter query] @ page \<and>
       sql_order_by sq = order_by query \<and>
       sql_limit sq = map_option (\<lambda>l. min l 100) (limit query)"
  unfolding build_query_def
  by (auto split: sum.splits)

subsection \<open>Validation, execution and the endpoint\<close>

lemma set_insert_row: "set (insert_row ob x ys) = insert x (set ys)"
  by (induction ys) auto

lemma set_order_rows: "set (order_rows ob rows) = set rows"
  unfolding order_rows_def by (induction rows) (simp_all add: set_insert_row)

lemma manyOrNone_Inr:
  assumes "manyOrNone sq table = Inr rows"
  shows "\<exists>l. sql_limit sq = Some l \<and> 0 \<le> l \<and> list_all well_formed (sql_where sq) \<and>
           rows = map select_row (take (nat l) (order_rows (sql_order_by sq)
                    (filter (\<lambda>o_row. list_all (\<lambda>c. holds c o_row) (sql_where sq)) table)))"
  using assms unfolding manyOrNone_def
  by (auto split: if_splits option.splits)

lemma manyOrNone_length:
  assumes "manyOrNone sq table = Inr rows"
  shows "\<exists>l. sql_limit sq = Some l \<and> 0 \<le> l \<and> int (length rows) \<le> l"
proof -
  from manyOrNone_Inr [OF assms] obtain l where
    l: "sql_limit sq = Some l" "0 \<le> l"
    and rows: "rows = map select_row (take (nat l) (order_rows (sql_order_by sq)
                    (filter (\<lambda>o_row. list_all (\<lambda>c. holds c o_row) (sql_where sq)) table)))"
    by blast
  from rows have "length rows \<le> nat l" by simp
  with l show ?thesis by auto
qed

lemma manyOrNone_member:
  assumes "manyOrNone sq table = Inr rows" "r \<in> set rows"
  shows "\<exists>o_row. o_row \<in> set table \<and> r = select_row o_row \<and>
           list_all (\<lambda>c. holds c o_row) (sql_where sq)"
proof -
  from manyOrNone_Inr [OF assms(1)] obtain l where
    rows: "rows = map select_row (take (nat l) (order_rows (sql_order_by sq)
                    (filter (\<lambda>o_row. list_all (\<lambda>c. holds c o_row) (sql_where sq)) table)))"
    by blast
  with assms(2) obtain o_row where
    o: "r = select_row o_row"
      "o_row \<in> set (take (nat l) (order_rows (sql_order_by sq)
                    (filter (\<lambda>o_row. list_all (\<lambda>c. holds c o_row) (sql_where sq)) table)))"
    by auto
  from o(2) have "o_row \<in> set (order_rows (sql_order_by sq)
                    (filter (\<lambda>o_row. list_all (\<lambda>c. holds c o_row) (sql_where sq)) table))"
    by (rule in_set_takeD)
  then have "o_row \<in> set table \<and> list_all (\<lambda>c. holds c o_row) (sql_where sq)"
    by (simp add: set_order_rows)
  with o(1) show ?thesis by blast
qed


subsection \<open>Splitting a joined pair\<close>

lemma underscore_not_digit: "\<not> digit CHR ''_''"
  unfolding digit_def by simp

lemma numeric_text_no_underscore: "CHR ''_'' \<notin> set (numeric_text n)"
proof
  assume "CHR ''_'' \<in> set (numeric_text n)"
  then have "CHR ''_'' \<in> set (digits_of_nat (unscaled n div 10 ^ scale n)) \<or>
      CHR ''_'' \<in> set (fixed_digits (scale n) (unscaled n mod 10 ^ scale n))"
    unfolding numeric_text_def by (auto split: if_splits)
  then have "digit CHR ''_''"
    using digits_of_nat_digits [of "unscaled n div 10 ^ scale n"]
      fixed_digits_digits [of "scale n" "unscaled n mod 10 ^ scale n"]
    by (auto simp: list_all_iff)
  with underscore_not_digit show False by simp
qed

lemma split_joined:
  assumes "CHR ''_'' \<notin> set k"
  shows "takeWhile (\<lambda>x. x \<noteq> CHR ''_'') (k @ ''_'' @ i) = k"
    and "drop 1 (dropWhile (\<lambda>x. x \<noteq> CHR ''_'') (k @ ''_'' @ i)) = i"
proof -
  from assms have k: "\<And>x. x \<in> set k \<Longrightarrow> x \<noteq> CHR ''_''" by auto
  show "takeWhile (\<lambda>x. x \<noteq> CHR ''_'') (k @ ''_'' @ i) = k"
    by (simp add: takeWhile_append2 [of k "\<lambda>x. x \<noteq> CHR ''_''", OF k])
  show "drop 1 (dropWhile (\<lambda>x. x \<noteq> CHR ''_'') (k @ ''_'' @ i)) = i"
    by (simp add: dropWhile_append2 [of k "\<lambda>x. x \<noteq> CHR ''_''", OF k])
qed

lemma split_built:
  assumes "order_id_shape i"
  shows "splitContinuation (buildContinuation (numeric_text n @ ''_'' @ i)) continuation_regex
         = Inr (numeric_text n, i)"
  unfolding splitContinuation_def buildContinuation_def
  using joined_matches [OF assms, of n] split_joined [OF numeric_text_no_underscore, of n i]
  by (simp add: base64_roundtrip)


lemma pagination_Inr:
  assumes "pagination query = Inr page" "continuation query = Some c"
  shows "\<exists>k cid. splitContinuation c continuation_regex = Inr (k, cid) \<and>
           page = [if sortBy query = Some Price then Price_id_gt k cid else Created_at_id_lt k cid]"
  using assms unfolding pagination_def
  by (auto split: sum.splits if_splits)

lemma splitContinuation_Inl:
  "splitContinuation c regEx = Inl e \<Longrightarrow> e = InvalidContinuation"
  unfolding splitContinuation_def by (auto split: option.splits if_splits)

lemma build_query_Inl:
  "build_query query = Inl e \<longleftrightarrow>
     (\<exists>c. continuation query = Some c \<and> splitContinuation c continuation_regex = Inl e)"
  unfolding build_query_def pagination_def
  by (auto split: option.splits sum.splits if_splits)

lemma build_query_page:
  assumes "continuation query = Some c" "splitContinuation c continuation_regex = Inr (k, cid)"
  shows "\<exists>sq. build_query query = Inr sq \<and>
           last (sql_where sq) =
             (if sortBy query = Some Price then Price_id_gt k cid else Created_at_id_lt k cid)"
  using assms unfolding build_query_def pagination_def by simp

subsection \<open>The cursor and the sort order\<close>

lemma numeric_less_value: "numeric_less a b \<longleftrightarrow> numeric_value a < numeric_value b"
proof -
  have "numeric_value a < numeric_value b \<longleftrightarrow>
      (of_nat (unscaled a * 10 ^ scale b) :: rat) < of_nat (unscaled b * 10 ^ scale a)"
    unfolding numeric_value_def by (simp add: field_simps)
  also have "\<dots> \<longleftrightarrow> unscaled a * 10 ^ scale b < unscaled b * 10 ^ scale a"
    by (rule of_nat_less_iff)
  finally show ?thesis unfolding numeric_less_def by simp
qed

lemma numeric_eq_value: "numeric_eq a b \<longleftrightarrow> numeric_value a = numeric_value b"
proof -
  have "numeric_value a = numeric_value b \<longleftrightarrow>
      (of_nat (unscaled a * 10 ^ scale b) :: rat) = of_nat (unscaled b * 10 ^ scale a)"
    unfolding numeric_value_def by (simp add: field_simps)
  also have "\<dots> \<longleftrightarrow> unscaled a * 10 ^ scale b = unscaled b * 10 ^ scale a"
    by (rule of_nat_eq_iff)
  finally show ?thesis unfolding numeric_eq_def by simp
qed

lemma numeric_eq_commute: "numeric_eq a b = numeric_eq b a"
  unfolding numeric_eq_def by auto

lemma price_cursor_order:
  "numeric_of_text k = Some v \<Longrightarrow>
     holds (Price_id_gt k cid) o_row =
       sorts_before [(Orders_price, ASC), (Orders_id, ASC)]
         \<lparr>key_price = v, key_created_at = t, key_id = cid\<rparr> (row_key o_row)"
  by (simp add: row_key_def)

lemma created_at_cursor_order:
  "numeric_of_text k = Some v \<Longrightarrow>
     holds (Created_at_id_lt k cid) o_row =
       sorts_before [(Orders_created_at, DESC), (Orders_id, DESC)]
         \<lparr>key_price = p, key_created_at = v, key_id = cid\<rparr> (row_key o_row)"
  by (simp add: row_key_def numeric_eq_commute [of v])

lemma result_key_select: "result_key (select_row o_row) = row_key o_row"
  by (simp add: result_key_def select_row_def row_key_def)

subsection \<open>The example pages\<close>

lemma token_b_built: "token_b = buildContinuation (numeric_text (Numeric 2 0) @ ''_'' @ id_b)"
  by code_simp

lemma id_b_shape: "order_id_shape id_b"
  by code_simp

lemma token_b_split: "splitContinuation token_b continuation_regex = Inr (''2'', id_b)"
proof -
  have "numeric_text (Numeric 2 0) = ''2''" by code_simp
  with split_built [OF id_b_shape, of "Numeric 2 0"] show ?thesis
    unfolding token_b_built by simp
qed

lemma price_page_sql: "build_query price_page = Inr (page_sql price_page [])"
  by (simp add: build_query_def pagination_def conditions_def orderStatusFilter_def
      price_page_def by_token_def no_filters_def page_sql_def)

lemma price_page2_sql:
  "build_query (price_page\<lparr>continuation := Some token_b\<rparr>) =
     Inr (page_sql price_page [Price_id_gt ''2'' id_b])"
  by (simp add: build_query_def pagination_def conditions_def orderStatusFilter_def
      price_page_def by_token_def no_filters_def page_sql_def token_b_split order_by_def)

lemma created_page2_sql:
  "build_query (created_page\<lparr>continuation := Some token_b\<rparr>) =
     Inr (page_sql created_page [Created_at_id_lt ''2'' id_b])"
  by (simp add: build_query_def pagination_def conditions_def orderStatusFilter_def
      created_page_def by_token_def no_filters_def page_sql_def token_b_split order_by_def)

lemmas example_defs =
  page_sql_def price_page_def created_page_def by_token_def no_filters_def example_table_def
  example_order_def example_contract_def example_maker_def id_a_def id_b_def id_c_def

lemmas run_defs =
  manyOrNone_def order_rows_def order_by_def row_key_def numeric_less_def numeric_eq_def
  select_row_def

lemma two_value: "numeric_of_text ''2'' = Some (Numeric 2 0)"
  by (simp add: numeric_of_text_def digit_def digits_value_def)

lemma price_page_rows:
  "manyOrNone (page_sql price_page []) example_table =
     Inr [select_row (example_order id_a 1 (Numeric 17002 1)),
          select_row (example_order id_b 2 (Numeric 17001 1))]"
  by (simp add: example_defs run_defs)

lemma price_page2_rows:
  "manyOrNone (page_sql price_page [Price_id_gt ''2'' id_b]) example_table =
     Inr [select_row (example_order id_c 2 (Numeric 17003 1))]"
  by (simp add: example_defs run_defs two_value)

lemma price_page_token:
  "next_continuation price_page (page_sql price_page [])
     [select_row (example_order id_a 1 (Numeric 17002 1)),
      select_row (example_order id_b 2 (Numeric 17001 1))] = Inr (Some token_b)"
  unfolding token_b_built
  by (simp add: next_continuation_def sort_key_text_def example_defs select_row_def)

lemma price_page_handler:
  "handler_rows example_table price_page =
     Inr ([select_row (example_order id_a 1 (Numeric 17002 1)),
           select_row (example_order id_b 2 (Numeric 17001 1))], Some token_b)"
  by (simp only: handler_rows_def price_page_sql price_page_rows price_page_token sum.case)

lemma token_order_1_refused:
  "splitContinuation token_order_1 continuation_regex = Inl InvalidContinuation"
  by code_simp

lemma all_rows:
  "manyOrNone (page_sql price_page []\<lparr>sql_limit := Some 50\<rparr>) example_table =
     Inr [select_row (example_order id_a 1 (Numeric 17002 1)),
          select_row (example_order id_b 2 (Numeric 17001 1)),
          select_row (example_order id_c 2 (Numeric 17003 1))]"
  by (simp add: example_defs run_defs)

lemma digit_char_values:
  "digit_char 0 = CHR ''0''" "digit_char (Suc 0) = CHR ''1''" "digit_char 2 = CHR ''2''"
  "digit_char 3 = CHR ''3''" "digit_char 4 = CHR ''4''" "digit_char 5 = CHR ''5''"
  "digit_char 6 = CHR ''6''" "digit_char 7 = CHR ''7''" "digit_char 8 = CHR ''8''"
  "digit_char 9 = CHR ''9''"
  by code_simp+

lemma created_key_text: "numeric_text (Numeric 17002 1) = ''1700.2''"
  by (simp add: numeric_text_def digits_of_nat.simps digit_char_values)

lemma created_key_value: "numeric_of_text ''1700.2'' = Some (Numeric 17002 1)"
  by (simp add: numeric_of_text_def digit_def digits_value_def)

lemma id_a_shape: "order_id_shape id_a"
  by code_simp

lemma token_a_built: "token_a = buildContinuation (''1700.2_'' @ id_a)"
  by code_simp

lemma token_a_split: "splitContinuation token_a continuation_regex = Inr (''1700.2'', id_a)"
  using split_built [OF id_a_shape, of "Numeric 17002 1"]
  unfolding token_a_built created_key_text by simp

lemma created_page2_rows:
  "manyOrNone (page_sql created_page [Created_at_id_lt ''1700.2'' id_a]) example_table =
     Inr [select_row (example_order id_b 2 (Numeric 17001 1))]"
  by (simp add: example_defs run_defs created_key_value)

lemma created_page2_sql_a:
  "build_query (created_page\<lparr>continuation := Some token_a\<rparr>) =
     Inr (page_sql created_page [Created_at_id_lt ''1700.2'' id_a])"
  by (simp add: build_query_def pagination_def conditions_def orderStatusFilter_def
      created_page_def by_token_def no_filters_def page_sql_def token_a_split order_by_def)

subsection \<open>The rules of the schema\<close>

lemma next_key_Inr: "next_key validated rest = Inr y \<longleftrightarrow> (\<exists>x. validated = Inr x \<and> rest x = Inr y)"
  unfolding next_key_def by (cases validated) simp_all

lemma next_key_Inl:
  "next_key validated rest = Inl e \<longleftrightarrow>
     validated = Inl e \<or> (\<exists>x. validated = Inr x \<and> rest x = Inl e)"
  unfolding next_key_def by (cases validated) simp_all



lemma validate_ids_present: "validate_ids v = Inr x \<Longrightarrow> (x = None \<longleftrightarrow> v = None)"
  unfolding validate_ids_def
  by (auto split: option.splits raw_value.splits if_splits)

lemma validate_pattern_present:
  "validate_pattern k pattern v = Inr x \<Longrightarrow> (x = None \<longleftrightarrow> v = None)"
  unfolding validate_pattern_def
  by (auto split: option.splits raw_value.splits if_splits)

lemma validate_pattern_value:
  "validate_pattern k pattern v = Inr (Some x) \<Longrightarrow>
     \<exists>s. v = Some (Str s) \<and> x = lowercase s \<and> pattern (lowercase s)"
  unfolding validate_pattern_def
  by (auto split: option.splits raw_value.splits if_splits)

lemma validate_contracts_present:
  "validate_contracts regex v = Inr x \<Longrightarrow> (x = None \<longleftrightarrow> v = None)"
  unfolding validate_contracts_def
  by (auto split: option.splits raw_value.splits if_splits)

lemma validate_status_present: "validate_status v = Inr x \<Longrightarrow> (x = None \<longleftrightarrow> v = None)"
  unfolding validate_status_def
  by (auto split: option.splits raw_value.splits if_splits)

lemma validate_sortBy_price:
  "validate_sortBy validated_token v = Inr Price \<longleftrightarrow>
     v = Some (Str ''price'') \<and> validated_token \<noteq> None"
  unfolding validate_sortBy_def
  by (auto split: option.splits raw_value.splits if_splits)

lemma validate_sortBy_no_token:
  "validate_sortBy None v = Inr s \<Longrightarrow> s = CreatedAt"
  unfolding validate_sortBy_def
  by (auto split: option.splits raw_value.splits if_splits)


lemma validate_limit_Inr:
  assumes "validate_limit v = Inr l"
  shows "1 \<le> l" "l \<le> 1000" "l = (case v of Some (Number n) \<Rightarrow> \<lfloor>n\<rfloor> | _ \<Rightarrow> 50)"
proof -
  show "l = (case v of Some (Number n) \<Rightarrow> \<lfloor>n\<rfloor> | _ \<Rightarrow> 50)"
    using assms unfolding validate_limit_def
    by (auto split: option.splits number_text.splits if_splits)
  show "1 \<le> l" "l \<le> 1000"
    using assms unfolding validate_limit_def
    by (auto split: option.splits number_text.splits if_splits simp: le_floor_iff floor_le_iff)
qed

lemma validate_filters_Inr:
  assumes "validate_filters regex rq = Inr filters"
  shows "ids filters = None \<longleftrightarrow> raw_ids rq = None"
    and "token filters = None \<longleftrightarrow> raw_token rq = None"
    and "maker filters = None \<longleftrightarrow> raw_maker rq = None"
    and "contracts filters = None \<longleftrightarrow> raw_contracts rq = None"
    and "status filters = None \<longleftrightarrow> raw_status rq = None"
    and "\<And>x. token filters = Some x \<Longrightarrow> \<exists>s. raw_token rq = Some (Str s) \<and> x = lowercase s"
    and "\<And>x. maker filters = Some x \<Longrightarrow> \<exists>s. raw_maker rq = Some (Str s) \<and> x = lowercase s"
proof -
  from assms obtain v_ids v_token v_maker v_contracts v_status v_private v_metadata v_raw where
    k: "validate_ids (raw_ids rq) = Inr v_ids"
      "validate_pattern Key_token (regex_token regex) (raw_token rq) = Inr v_token"
      "validate_pattern Key_maker (regex_address regex) (raw_maker rq) = Inr v_maker"
      "validate_contracts regex (raw_contracts rq) = Inr v_contracts"
      "validate_status (raw_status rq) = Inr v_status"
    and f: "filters = \<lparr>ids = v_ids, token = v_token, maker = v_maker, contracts = v_contracts,
          status = v_status, includePrivate = Some v_private,
          includeMetadata = Some v_metadata, includeRawData = Some v_raw,
          sortBy = None, continuation = None, limit = None\<rparr>"
    unfolding validate_filters_def next_key_Inr by auto
  show "ids filters = None \<longleftrightarrow> raw_ids rq = None"
    using validate_ids_present [OF k(1)] by (simp add: f)
  show "token filters = None \<longleftrightarrow> raw_token rq = None"
    using validate_pattern_present [OF k(2)] by (simp add: f)
  show "maker filters = None \<longleftrightarrow> raw_maker rq = None"
    using validate_pattern_present [OF k(3)] by (simp add: f)
  show "contracts filters = None \<longleftrightarrow> raw_contracts rq = None"
    using validate_contracts_present [OF k(4)] by (simp add: f)
  show "status filters = None \<longleftrightarrow> raw_status rq = None"
    using validate_status_present [OF k(5)] by (simp add: f)
  show "\<exists>s. raw_token rq = Some (Str s) \<and> x = lowercase s" if "token filters = Some x" for x
    using that validate_pattern_value [of Key_token "regex_token regex" "raw_token rq" x] k(2)
    by (auto simp: f)
  show "\<exists>s. raw_maker rq = Some (Str s) \<and> x = lowercase s" if "maker filters = Some x" for x
    using that validate_pattern_value [of Key_maker "regex_address regex" "raw_maker rq" x] k(3)
    by (auto simp: f)
qed

lemma validate_keys_Inr:
  assumes "validate_keys regex rq = Inr q"
  shows "\<exists>filters v_sortBy v_continuation v_limit.
           validate_filters regex rq = Inr filters \<and>
           validate_sortBy (token filters) (raw_sortBy rq) = Inr v_sortBy \<and>
           validate_continuation regex (raw_continuation rq) = Inr v_continuation \<and>
           validate_limit (raw_limit rq) = Inr v_limit \<and>
           q = filters\<lparr>sortBy := Some v_sortBy, continuation := v_continuation,
                        limit := Some v_limit\<rparr>"
  using assms unfolding validate_keys_def next_key_Inr by auto

lemma validate_keys_fields:
  assumes "validate_keys regex rq = Inr q"
  shows "ids q = None \<longleftrightarrow> raw_ids rq = None"
    and "token q = None \<longleftrightarrow> raw_token rq = None"
    and "maker q = None \<longleftrightarrow> raw_maker rq = None"
    and "contracts q = None \<longleftrightarrow> raw_contracts rq = None"
    and "status q = None \<longleftrightarrow> raw_status rq = None"
    and "\<And>x. token q = Some x \<Longrightarrow> \<exists>s. raw_token rq = Some (Str s) \<and> x = lowercase s"
    and "limit q = Some (requested_limit rq)"
    and "1 \<le> requested_limit rq" and "requested_limit rq \<le> 1000"
    and "sortBy q = Some Price \<longleftrightarrow> raw_sortBy rq = Some (Str ''price'') \<and> raw_token rq \<noteq> None"
    and "raw_token rq = None \<Longrightarrow> sortBy q = Some CreatedAt"
proof -
  from validate_keys_Inr [OF assms] obtain filters v_sortBy v_continuation v_limit where
    f: "validate_filters regex rq = Inr filters"
    and s: "validate_sortBy (token filters) (raw_sortBy rq) = Inr v_sortBy"
    and l: "validate_limit (raw_limit rq) = Inr v_limit"
    and q: "q = filters\<lparr>sortBy := Some v_sortBy, continuation := v_continuation,
                        limit := Some v_limit\<rparr>"
    by blast
  note p = validate_filters_Inr [OF f]
  show "ids q = None \<longleftrightarrow> raw_ids rq = None" using p(1) by (simp add: q)
  show t: "token q = None \<longleftrightarrow> raw_token rq = None" using p(2) by (simp add: q)
  show "maker q = None \<longleftrightarrow> raw_maker rq = None" using p(3) by (simp add: q)
  show "contracts q = None \<longleftrightarrow> raw_contracts rq = None" using p(4) by (simp add: q)
  show "status q = None \<longleftrightarrow> raw_status rq = None" using p(5) by (simp add: q)
  show "\<exists>s. raw_token rq = Some (Str s) \<and> x = lowercase s" if "token q = Some x" for x
    using that p(6) [of x] by (simp add: q)
  from validate_limit_Inr [OF l]
  have lv: "1 \<le> v_limit" "v_limit \<le> 1000" "v_limit = requested_limit rq"
    unfolding requested_limit_def by simp_all
  show "limit q = Some (requested_limit rq)" using lv(3) by (simp add: q)
  show "1 \<le> requested_limit rq" "requested_limit rq \<le> 1000" using lv by simp_all
  show "sortBy q = Some Price \<longleftrightarrow> raw_sortBy rq = Some (Str ''price'') \<and> raw_token rq \<noteq> None"
    using s p(2) validate_sortBy_price [of "token filters" "raw_sortBy rq"] by (auto simp: q)
  show "sortBy q = Some CreatedAt" if "raw_token rq = None"
  proof -
    from that p(2) have "token filters = None" by simp
    with s validate_sortBy_no_token [of "raw_sortBy rq" v_sortBy] show ?thesis by (simp add: q)
  qed
qed

lemma validate_query_Inr:
  assumes "validate_query regex rq = Inr query"
  shows "validate_keys regex rq = Inr query"
    and "ids query \<noteq> None \<or> token query \<noteq> None \<or> contracts query \<noteq> None \<or> maker query \<noteq> None"
    and "status query \<noteq> None \<longrightarrow> maker query \<noteq> None"
  using assms unfolding validate_query_def next_key_Inr
  by (auto split: if_splits)




subsection \<open>Errors and results of the endpoint\<close>

lemma project_all_length: "project_all rs = Inr js \<Longrightarrow> length js = length rs"
  by (induction rs arbitrary: js) (auto split: sum.splits)

lemma project_all_last:
  "project_all rs = Inr js \<Longrightarrow> rs \<noteq> [] \<Longrightarrow> project (last rs) = Inr (last js)"
proof (induction rs arbitrary: js)
  case Nil
  then show ?case by simp
next
  case (Cons r rs)
  from Cons.prems(1) obtain j js' where
    j: "project r = Inr j" and js': "project_all rs = Inr js'" and js: "js = j # js'"
    by (auto split: sum.splits)
  show ?case
  proof (cases "rs = []")
    case True
    with j js' js show ?thesis by simp
  next
    case False
    from project_all_length [OF js'] False have "js' \<noteq> []" by auto
    with Cons.IH [OF js' False] False js show ?thesis by simp
  qed
qed

lemma get_orders_asks_Inr:
  assumes "get_orders_asks regex table rq = Inr resp"
  shows "\<exists>query sq rawResult. validate_query regex rq = Inr query \<and> build_query query = Inr sq \<and>
           manyOrNone sq table = Inr rawResult \<and>
           next_continuation query sq rawResult = Inr (next_token resp) \<and>
           project_all rawResult = Inr (orders resp)"
  using assms unfolding get_orders_asks_def handler_def handler_rows_def
  by (auto split: sum.splits prod.splits)

subsection \<open>The example requests\<close>

lemma example_token_text:
  "lowercase (example_contract @ '':123'') = example_contract @ '':123''"
  "regex_token example_regex (example_contract @ '':123'')"
  by code_simp+


lemmas validate_defs =
  validate_query_def validate_keys_def validate_filters_def next_key_def validate_ids_def
  validate_pattern_def validate_contracts_def validate_status_def validate_boolean_def
  validate_sortBy_def validate_continuation_def validate_limit_def


lemma price_request_valid: "validate_query example_regex price_request = Inr price_page"
  by (simp add: validate_defs price_request_def token_request_def no_parameters_def
      price_page_def by_token_def no_filters_def example_token_text)

lemma project_example:
  "project (select_row (example_order i p t)) = Inr (example_json i p t)"
  by (simp add: project_def fromBuffer_def select_row_def example_order_def example_json_def
      status_case_def price_argument_def)

lemma price_response:
  "get_orders_asks example_regex example_table price_request =
     Inr \<lparr>orders = [example_json id_a 1 (Numeric 17002 1), example_json id_b 2 (Numeric 17001 1)],
          next_token = Some token_b\<rparr>"
  by (simp only: get_orders_asks_def handler_def price_request_valid price_page_handler
      project_all.simps project_example sum.case prod.case)

lemma all_rows_response:
  "get_orders_asks example_regex example_table (token_request\<lparr>raw_sortBy := Some (Str ''price'')\<rparr>) =
     Inr \<lparr>orders = [example_json id_a 1 (Numeric 17002 1), example_json id_b 2 (Numeric 17001 1),
                     example_json id_c 2 (Numeric 17003 1)],
          next_token = None\<rparr>"
proof -
  have v: "validate_query example_regex (token_request\<lparr>raw_sortBy := Some (Str ''price'')\<rparr>) =
      Inr (price_page\<lparr>limit := Some 50\<rparr>)"
    by (simp add: validate_defs token_request_def no_parameters_def price_page_def by_token_def
        no_filters_def example_token_text)
  have b: "build_query (price_page\<lparr>limit := Some 50\<rparr>) =
      Inr (page_sql price_page []\<lparr>sql_limit := Some 50\<rparr>)"
    by (simp add: build_query_def pagination_def conditions_def orderStatusFilter_def
      price_page_def by_token_def no_filters_def page_sql_def order_by_def)
  have n: "next_continuation (price_page\<lparr>limit := Some 50\<rparr>)
      (page_sql price_page []\<lparr>sql_limit := Some 50\<rparr>)
      [select_row (example_order id_a 1 (Numeric 17002 1)),
       select_row (example_order id_b 2 (Numeric 17001 1)),
       select_row (example_order id_c 2 (Numeric 17003 1))] = Inr None"
    by (simp add: next_continuation_def page_sql_def)
  show ?thesis
    by (simp only: get_orders_asks_def handler_def handler_rows_def v b all_rows n
      project_all.simps project_example sum.case prod.case)
qed


section \<open>Claims\<close>

text \<open>
  C1. For a request with a continuation, every returned row comes strictly after the decoded
  cursor in the order of the statement: under price sort the order is (price asc, id asc) and
  the row's (price, id) is lexicographically greater than the cursor pair; otherwise the order
  is (created_at desc, id desc) and the row's (created_at, id) is lexicographically less. The
  pagination condition, the last of the WHERE clause, selects exactly the rows that the
  ORDER BY order puts after the cursor.
\<close>

theorem pagination_predicate:
  assumes "build_query query = Inr sq" "continuation query = Some c"
    and "manyOrNone sq table = Inr rawResult" "r \<in> set rawResult"
  shows "\<exists>k cid v. splitContinuation c continuation_regex = Inr (k, cid) \<and>
           numeric_of_text k = Some v \<and>
           (sortBy query = Some Price \<longrightarrow>
              sql_order_by sq = [(Orders_price, ASC), (Orders_id, ASC)] \<and>
              last (sql_where sq) = Price_id_gt k cid \<and>
              (numeric_less v (r_price r) \<or> (numeric_eq v (r_price r) \<and> text_less cid (r_id r))) \<and>
              (\<forall>t. sorts_before (sql_order_by sq)
                     \<lparr>key_price = v, key_created_at = t, key_id = cid\<rparr> (result_key r)) \<and>
              (\<forall>t o_row. holds (last (sql_where sq)) o_row \<longleftrightarrow>
                 sorts_before (sql_order_by sq)
                     \<lparr>key_price = v, key_created_at = t, key_id = cid\<rparr> (row_key o_row))) \<and>
           (sortBy query \<noteq> Some Price \<longrightarrow>
              sql_order_by sq = [(Orders_created_at, DESC), (Orders_id, DESC)] \<and>
              last (sql_where sq) = Created_at_id_lt k cid \<and>
              (numeric_less (r_created_at r) v \<or>
               (numeric_eq (r_created_at r) v \<and> text_less (r_id r) cid)) \<and>
              (\<forall>p. sorts_before (sql_order_by sq)
                     \<lparr>key_price = p, key_created_at = v, key_id = cid\<rparr> (result_key r)) \<and>
              (\<forall>p o_row. holds (last (sql_where sq)) o_row \<longleftrightarrow>
                 sorts_before (sql_order_by sq)
                     \<lparr>key_price = p, key_created_at = v, key_id = cid\<rparr> (row_key o_row)))"
proof -
  from build_query_where [OF assms(1)] obtain page where
    page: "pagination query = Inr page"
    and w: "sql_where sq = conditions query @ [orderStatusFilter query] @ page"
    and ob: "sql_order_by sq = order_by query"
    by blast
  from pagination_Inr [OF page assms(2)] obtain k cid where
    split: "splitContinuation c continuation_regex = Inr (k, cid)"
    and p: "page = [if sortBy query = Some Price then Price_id_gt k cid else Created_at_id_lt k cid]"
    by blast
  let ?pc = "if sortBy query = Some Price then Price_id_gt k cid else Created_at_id_lt k cid"
  from w p have lastw: "last (sql_where sq) = ?pc" by simp
  from w p have mem: "?pc \<in> set (sql_where sq)" by simp
  from manyOrNone_Inr [OF assms(3)] have "list_all well_formed (sql_where sq)" by blast
  with mem have "well_formed ?pc" by (simp add: list_all_iff)
  then obtain v where v: "numeric_of_text k = Some v"
    by (cases "sortBy query = Some Price") auto
  from manyOrNone_member [OF assms(3,4)] obtain o_row where
    r: "r = select_row o_row" and h: "list_all (\<lambda>c. holds c o_row) (sql_where sq)"
    by blast
  from h mem have hpc: "holds ?pc o_row" by (simp add: list_all_iff)
  have rk: "result_key r = row_key o_row" unfolding r by (rule result_key_select)
  have rf: "r_price r = orders_price o_row" "r_created_at r = orders_created_at o_row"
    "r_id r = orders_id o_row"
    unfolding r by (simp_all add: select_row_def)
  show ?thesis
  proof (cases "sortBy query = Some Price")
    case True
    with hpc have hp: "holds (Price_id_gt k cid) o_row" by simp
    have "sql_order_by sq = [(Orders_price, ASC), (Orders_id, ASC)]"
      unfolding ob order_by_def using True by simp
    moreover from lastw True have "last (sql_where sq) = Price_id_gt k cid" by simp
    moreover from hp v have "numeric_less v (r_price r) \<or>
        (numeric_eq v (r_price r) \<and> text_less cid (r_id r))"
      unfolding rf by simp
    moreover from hp have "\<forall>t. sorts_before [(Orders_price, ASC), (Orders_id, ASC)]
        \<lparr>key_price = v, key_created_at = t, key_id = cid\<rparr> (result_key r)"
      unfolding rk using price_cursor_order [OF v] by blast
    moreover have "\<forall>t o_row. holds (Price_id_gt k cid) o_row \<longleftrightarrow>
        sorts_before [(Orders_price, ASC), (Orders_id, ASC)]
          \<lparr>key_price = v, key_created_at = t, key_id = cid\<rparr> (row_key o_row)"
      using price_cursor_order [OF v] by blast
    ultimately show ?thesis using split v True by simp
  next
    case False
    with hpc have hp: "holds (Created_at_id_lt k cid) o_row" by simp
    have "sql_order_by sq = [(Orders_created_at, DESC), (Orders_id, DESC)]"
      unfolding ob order_by_def using False by simp
    moreover from lastw False have "last (sql_where sq) = Created_at_id_lt k cid" by simp
    moreover from hp v have "numeric_less (r_created_at r) v \<or>
        (numeric_eq (r_created_at r) v \<and> text_less (r_id r) cid)"
      unfolding rf by simp
    moreover from hp have "\<forall>p. sorts_before [(Orders_created_at, DESC), (Orders_id, DESC)]
        \<lparr>key_price = p, key_created_at = v, key_id = cid\<rparr> (result_key r)"
      unfolding rk using created_at_cursor_order [OF v] by blast
    moreover have "\<forall>p o_row. holds (Created_at_id_lt k cid) o_row \<longleftrightarrow>
        sorts_before [(Orders_created_at, DESC), (Orders_id, DESC)]
          \<lparr>key_price = p, key_created_at = v, key_id = cid\<rparr> (row_key o_row)"
      using created_at_cursor_order [OF v] by blast
    ultimately show ?thesis using split v False by simp
  qed
qed


theorem pagination_predicate_witness:
  "build_query (price_page\<lparr>continuation := Some token_b\<rparr>) =
     Inr (page_sql price_page [Price_id_gt ''2'' id_b])
   \<and> manyOrNone (page_sql price_page [Price_id_gt ''2'' id_b]) example_table =
       Inr [select_row (example_order id_c 2 (Numeric 17003 1))]
   \<and> splitContinuation token_b continuation_regex = Inr (''2'', id_b)
   \<and> numeric_eq (Numeric 2 0) (Numeric 2 0) \<and> text_less id_b id_c
   \<and> build_query (created_page\<lparr>continuation := Some token_a\<rparr>) =
       Inr (page_sql created_page [Created_at_id_lt ''1700.2'' id_a])
   \<and> manyOrNone (page_sql created_page [Created_at_id_lt ''1700.2'' id_a]) example_table =
       Inr [select_row (example_order id_b 2 (Numeric 17001 1))]
   \<and> splitContinuation token_a continuation_regex = Inr (''1700.2'', id_a)
   \<and> numeric_less (Numeric 17001 1) (Numeric 17002 1)"
proof -
  let ?r = "select_row (example_order id_c 2 (Numeric 17003 1))"
  have c: "continuation (price_page\<lparr>continuation := Some token_b\<rparr>) = Some token_b" by simp
  have s: "sortBy (price_page\<lparr>continuation := Some token_b\<rparr>) = Some Price"
    by (simp add: price_page_def)
  have r: "?r \<in> set [?r]" by simp
  from pagination_predicate [OF price_page2_sql c price_page2_rows r] s
  obtain k cid v where
    "splitContinuation token_b continuation_regex = Inr (k, cid)"
    "numeric_of_text k = Some v"
    "numeric_less v (r_price ?r) \<or> (numeric_eq v (r_price ?r) \<and> text_less cid (r_id ?r))"
    by blast
  then have "numeric_less (Numeric 2 0) (Numeric 2 0) \<or>
      (numeric_eq (Numeric 2 0) (Numeric 2 0) \<and> text_less id_b id_c)"
    by (auto simp: token_b_split two_value select_row_def example_order_def)
  then have 1: "numeric_eq (Numeric 2 0) (Numeric 2 0) \<and> text_less id_b id_c"
    by (simp add: numeric_less_def)
  let ?r' = "select_row (example_order id_b 2 (Numeric 17001 1))"
  have c': "continuation (created_page\<lparr>continuation := Some token_a\<rparr>) = Some token_a" by simp
  have s': "sortBy (created_page\<lparr>continuation := Some token_a\<rparr>) \<noteq> Some Price"
    by (simp add: created_page_def)
  have r': "?r' \<in> set [?r']" by simp
  from pagination_predicate [OF created_page2_sql_a c' created_page2_rows r'] s'
  obtain k' cid' v' where
    "splitContinuation token_a continuation_regex = Inr (k', cid')"
    "numeric_of_text k' = Some v'"
    "numeric_less (r_created_at ?r') v' \<or>
       (numeric_eq (r_created_at ?r') v' \<and> text_less (r_id ?r') cid')"
    by blast
  then have "numeric_less (Numeric 17001 1) (Numeric 17002 1) \<or>
      (numeric_eq (Numeric 17001 1) (Numeric 17002 1) \<and> text_less id_b id_a)"
    by (auto simp: token_a_split created_key_value select_row_def example_order_def)
  then have 2: "numeric_less (Numeric 17001 1) (Numeric 17002 1)"
    by (simp add: numeric_eq_def)
  from 1 2 price_page2_sql price_page2_rows token_b_split created_page2_sql_a
    created_page2_rows token_a_split
  show ?thesis by blast
qed

text \<open>
  C2. The derived status of a record is a total, deterministic function of the pair
  (fillability flag, approval flag): it is the label of the first rule of the precedence
  filled, cancelled, expired, no-balance (inactive), no-approval (inactive) that applies, and
  active when none does; it is always one of the five labels, and every projected record
  carries it unchanged.
\<close>

theorem status_classifier:
  "r_status (select_row o_row) =
     derived_status (orders_fillability_status o_row) (orders_approval_status o_row)
   \<and> (\<forall>j. project (select_row o_row) = Inr j \<longrightarrow> order_status j = r_status (select_row o_row))
   \<and> r_status (select_row o_row) \<in> {''filled'', ''cancelled'', ''expired'', ''inactive'', ''active''}
   \<and> (r_status (select_row o_row) = ''filled'' \<longleftrightarrow> orders_fillability_status o_row = ''filled'')
   \<and> (r_status (select_row o_row) = ''cancelled'' \<longleftrightarrow> orders_fillability_status o_row = ''cancelled'')
   \<and> (r_status (select_row o_row) = ''expired'' \<longleftrightarrow> orders_fillability_status o_row = ''expired'')
   \<and> (r_status (select_row o_row) = ''inactive'' \<longleftrightarrow>
        orders_fillability_status o_row = ''no-balance'' \<or>
        (orders_fillability_status o_row \<notin> {''filled'', ''cancelled'', ''expired''} \<and>
         orders_approval_status o_row = ''no-approval''))
   \<and> (r_status (select_row o_row) = ''active'' \<longleftrightarrow>
        orders_fillability_status o_row \<notin> {''filled'', ''cancelled'', ''expired'', ''no-balance''} \<and>
        orders_approval_status o_row \<noteq> ''no-approval'')"
proof -
  let ?f = "orders_fillability_status o_row" and ?a = "orders_approval_status o_row"
  have s: "r_status (select_row o_row) = status_case ?f ?a"
    by (simp add: select_row_def)
  have refines: "status_case ?f ?a = derived_status ?f ?a"
    by (simp add: status_case_def derived_status_def status_precedence_def)
  have copied: "\<forall>j. project (select_row o_row) = Inr j \<longrightarrow>
      order_status j = r_status (select_row o_row)"
    by (auto simp: project_def split: sum.splits)
  have labels: "status_case ?f ?a \<in> {''filled'', ''cancelled'', ''expired'', ''inactive'', ''active''}"
    by (simp add: status_case_def)
  have each: "status_case ?f ?a = ''filled'' \<longleftrightarrow> ?f = ''filled''"
    "status_case ?f ?a = ''cancelled'' \<longleftrightarrow> ?f = ''cancelled''"
    "status_case ?f ?a = ''expired'' \<longleftrightarrow> ?f = ''expired''"
    "status_case ?f ?a = ''inactive'' \<longleftrightarrow>
       ?f = ''no-balance'' \<or> (?f \<notin> {''filled'', ''cancelled'', ''expired''} \<and> ?a = ''no-approval'')"
    "status_case ?f ?a = ''active'' \<longleftrightarrow>
       ?f \<notin> {''filled'', ''cancelled'', ''expired'', ''no-balance''} \<and> ?a \<noteq> ''no-approval''"
    by (simp_all add: status_case_def)
  from copied have copied': "\<forall>j. project (select_row o_row) = Inr j \<longrightarrow>
      order_status j = status_case ?f ?a"
    unfolding s .
  show ?thesis
    unfolding s using refines labels each copied' by blast
qed

theorem status_classifier_witness:
  "project (select_row (example_order id_a 1 (Numeric 17002 1))) =
     Inr (example_json id_a 1 (Numeric 17002 1))
   \<and> order_status (example_json id_a 1 (Numeric 17002 1)) = ''active''
   \<and> r_status (select_row (example_order id_a 1 (Numeric 17002 1))) = ''active''"
proof -
  have a: "order_status (example_json id_a 1 (Numeric 17002 1)) = ''active''"
    by (simp add: example_json_def)
  from status_classifier [of "example_order id_a 1 (Numeric 17002 1)"] project_example
  have "order_status (example_json id_a 1 (Numeric 17002 1)) =
      r_status (select_row (example_order id_a 1 (Numeric 17002 1)))"
    by blast
  with a project_example show ?thesis by simp
qed







text \<open>
  C5. The limit of the statement is the minimum of the requested page size and 100, so no
  result and no response has more than 100 rows; a request for 1000 rows runs with limit 100.
\<close>

theorem limit_clamp:
  assumes "validate_query regex rq = Inr query" "build_query query = Inr sq"
  shows "sql_limit sq = Some (min (requested_limit rq) 100)
         \<and> (\<forall>table rawResult. manyOrNone sq table = Inr rawResult \<longrightarrow> length rawResult \<le> 100)
         \<and> (\<forall>table resp. get_orders_asks regex table rq = Inr resp \<longrightarrow> length (orders resp) \<le> 100)"
proof (intro conjI allI impI)
  from build_query_where [OF assms(2)]
    validate_keys_fields(7) [OF validate_query_Inr(1) [OF assms(1)]]
  show l: "sql_limit sq = Some (min (requested_limit rq) 100)" by auto
  {
    fix table rawResult
    assume "manyOrNone sq table = Inr rawResult"
    from manyOrNone_length [OF this] l show "length rawResult \<le> 100" by auto
  } note rows = this
  fix table resp
  assume "get_orders_asks regex table rq = Inr resp"
  from get_orders_asks_Inr [OF this] assms obtain rawResult where
    "manyOrNone sq table = Inr rawResult" "project_all rawResult = Inr (orders resp)"
    by auto
  with rows [of table rawResult] project_all_length [of rawResult "orders resp"]
  show "length (orders resp) \<le> 100" by simp
qed

theorem limit_clamp_witness:
  "validate_query example_regex (token_request\<lparr>raw_limit := Some (Number 1000)\<rparr>) =
     Inr (by_token\<lparr>includePrivate := Some False, includeMetadata := Some False,
            includeRawData := Some False, sortBy := Some CreatedAt, limit := Some 1000\<rparr>)
   \<and> build_query (by_token\<lparr>includePrivate := Some False, includeMetadata := Some False,
            includeRawData := Some False, sortBy := Some CreatedAt, limit := Some 1000\<rparr>) =
     Inr \<lparr>sql_where = [Side_sell, Token_set_id_eq (''token:'' @ example_contract @ '':123''),
            Taker_public, Fillable_approved],
          sql_order_by = [(Orders_created_at, DESC), (Orders_id, DESC)],
          sql_limit = Some 100\<rparr>"
proof -
  let ?rq = "token_request\<lparr>raw_limit := Some (Number 1000)\<rparr>"
  let ?query = "by_token\<lparr>includePrivate := Some False, includeMetadata := Some False,
            includeRawData := Some False, sortBy := Some CreatedAt, limit := Some 1000\<rparr>"
  let ?sq = "\<lparr>sql_where = [Side_sell, Token_set_id_eq (''token:'' @ example_contract @ '':123''),
            Taker_public, Fillable_approved],
          sql_order_by = [(Orders_created_at, DESC), (Orders_id, DESC)],
          sql_limit = Some (min (requested_limit ?rq) 100)\<rparr>"
  have v: "validate_query example_regex ?rq = Inr ?query"
    by (simp add: validate_defs token_request_def no_parameters_def by_token_def no_filters_def
        example_token_text)
  have b: "build_query ?query = Inr ?sq"
    by (simp add: build_query_def pagination_def conditions_def orderStatusFilter_def
        order_by_def by_token_def no_filters_def requested_limit_def)
  from limit_clamp [OF v b] have "sql_limit ?sq = Some (min (requested_limit ?rq) 100)" by blast
  with v b show ?thesis
    by (simp add: requested_limit_def token_request_def no_parameters_def)
qed

text \<open>
  C6, as the code has it. A continuation is refused with InvalidContinuation exactly when it
  is not base64 text or its decoded text does not match the handler's expression; an accepted
  one is split at the first underscore. The handler passes the same expression whatever the
  sort mode and the token records no sort mode, so whether a continuation is accepted does not
  depend on sortBy: an accepted pair becomes the cursor of the price condition under price
  sort and of the created_at condition otherwise.
\<close>

theorem continuation_decoding:
  "(splitContinuation c continuation_regex = Inl InvalidContinuation \<longleftrightarrow>
      base64_decode c = None \<or>
      (\<exists>decoded. base64_decode c = Some decoded \<and> \<not> matches continuation_regex decoded))
   \<and> (\<forall>k cid. splitContinuation c continuation_regex = Inr (k, cid) \<longrightarrow>
         (\<exists>decoded. base64_decode c = Some decoded \<and> matches continuation_regex decoded \<and>
            k = takeWhile (\<lambda>x. x \<noteq> CHR ''_'') decoded \<and>
            cid = drop 1 (dropWhile (\<lambda>x. x \<noteq> CHR ''_'') decoded)))
   \<and> (continuation query = Some c \<longrightarrow>
         (\<forall>s. build_query (query\<lparr>sortBy := s\<rparr>) = Inl InvalidContinuation \<longleftrightarrow>
              splitContinuation c continuation_regex = Inl InvalidContinuation) \<and>
         (\<forall>k cid s. splitContinuation c continuation_regex = Inr (k, cid) \<longrightarrow>
            (\<exists>sq. build_query (query\<lparr>sortBy := s\<rparr>) = Inr sq \<and>
               last (sql_where sq) =
                 (if s = Some Price then Price_id_gt k cid else Created_at_id_lt k cid))))"
proof (intro conjI impI allI)
  show "splitContinuation c continuation_regex = Inl InvalidContinuation \<longleftrightarrow>
      base64_decode c = None \<or>
      (\<exists>decoded. base64_decode c = Some decoded \<and> \<not> matches continuation_regex decoded)"
    unfolding splitContinuation_def by (auto split: option.splits)
next
  fix k cid
  assume "splitContinuation c continuation_regex = Inr (k, cid)"
  then show "\<exists>decoded. base64_decode c = Some decoded \<and> matches continuation_regex decoded \<and>
            k = takeWhile (\<lambda>x. x \<noteq> CHR ''_'') decoded \<and>
            cid = drop 1 (dropWhile (\<lambda>x. x \<noteq> CHR ''_'') decoded)"
    unfolding splitContinuation_def by (auto split: option.splits if_splits)
next
  fix s
  assume c: "continuation query = Some c"
  then show "build_query (query\<lparr>sortBy := s\<rparr>) = Inl InvalidContinuation \<longleftrightarrow>
              splitContinuation c continuation_regex = Inl InvalidContinuation"
    by (simp add: build_query_Inl)
next
  fix k cid s
  assume c: "continuation query = Some c"
    and sp: "splitContinuation c continuation_regex = Inr (k, cid)"
  from c have "continuation (query\<lparr>sortBy := s\<rparr>) = Some c" by simp
  from build_query_page [OF this sp]
  show "\<exists>sq. build_query (query\<lparr>sortBy := s\<rparr>) = Inr sq \<and>
               last (sql_where sq) =
                 (if s = Some Price then Price_id_gt k cid else Created_at_id_lt k cid)"
    by simp
qed

text \<open>
  The continuation that the first page of a price sort returns is accepted by a request that
  sorts by createdAt, and its price 2 is read as a creation time.
\<close>

theorem continuation_decoding_counterexample:
  "handler_rows example_table price_page =
     Inr ([select_row (example_order id_a 1 (Numeric 17002 1)),
           select_row (example_order id_b 2 (Numeric 17001 1))], Some token_b)
   \<and> sortBy price_page = Some Price
   \<and> sortBy (created_page\<lparr>continuation := Some token_b\<rparr>) = Some CreatedAt
   \<and> build_query (created_page\<lparr>continuation := Some token_b\<rparr>) =
       Inr (page_sql created_page [Created_at_id_lt ''2'' id_b])
   \<and> build_query (created_page\<lparr>continuation := Some token_b\<rparr>) \<noteq> Inl InvalidContinuation"
  using price_page_handler created_page2_sql
  by (simp add: price_page_def created_page_def)

theorem continuation_decoding_witness:
  "splitContinuation token_b continuation_regex = Inr (''2'', id_b)
   \<and> (\<exists>sq. build_query (created_page\<lparr>continuation := Some token_b, sortBy := Some CreatedAt\<rparr>) = Inr sq
          \<and> last (sql_where sq) = Created_at_id_lt ''2'' id_b)
   \<and> (\<exists>sq. build_query (created_page\<lparr>continuation := Some token_b, sortBy := Some Price\<rparr>) = Inr sq
          \<and> last (sql_where sq) = Price_id_gt ''2'' id_b)
   \<and> build_query (created_page\<lparr>continuation := Some token_order_1, sortBy := Some Price\<rparr>)
       = Inl InvalidContinuation"
proof -
  have c: "continuation (created_page\<lparr>continuation := Some token_b\<rparr>) = Some token_b" by simp
  have c1: "continuation (created_page\<lparr>continuation := Some token_order_1\<rparr>) = Some token_order_1"
    by simp
  from continuation_decoding [of token_b "created_page\<lparr>continuation := Some token_b\<rparr>"] c
    token_b_split
  have "\<forall>s. \<exists>sq. build_query (created_page\<lparr>continuation := Some token_b, sortBy := s\<rparr>) = Inr sq \<and>
      last (sql_where sq) =
        (if s = Some Price then Price_id_gt ''2'' id_b else Created_at_id_lt ''2'' id_b)"
    by blast
  note every = this
  from spec [OF every, of "Some CreatedAt"]
  have 1: "\<exists>sq. build_query (created_page\<lparr>continuation := Some token_b, sortBy := Some CreatedAt\<rparr>) = Inr sq
          \<and> last (sql_where sq) = Created_at_id_lt ''2'' id_b"
    by simp
  from spec [OF every, of "Some Price"]
  have 2: "\<exists>sq. build_query (created_page\<lparr>continuation := Some token_b, sortBy := Some Price\<rparr>) = Inr sq
          \<and> last (sql_where sq) = Price_id_gt ''2'' id_b"
    by simp
  from continuation_decoding [of token_order_1 "created_page\<lparr>continuation := Some token_order_1\<rparr>"]
    c1 token_order_1_refused
  have 3: "build_query (created_page\<lparr>continuation := Some token_order_1, sortBy := Some Price\<rparr>)
       = Inl InvalidContinuation"
    by blast
  from token_b_split 1 2 3 show ?thesis by blast
qed

text \<open>
  C7. A response has a continuation exactly when the number of its orders equals the clamped
  limit; the continuation is then built from the last row's sort key (price under price sort,
  created_at otherwise), an underscore and the last row's id, and decodes to that text. A
  shorter page has no continuation.
\<close>

theorem continuation_emission:
  assumes "get_orders_asks regex table rq = Inr resp"
  shows "\<exists>query rawResult.
           validate_query regex rq = Inr query \<and>
           handler_rows table query = Inr (rawResult, next_token resp) \<and>
           project_all rawResult = Inr (orders resp) \<and>
           length (orders resp) = length rawResult \<and>
           int (length (orders resp)) \<le> min (requested_limit rq) 100 \<and>
           (next_token resp \<noteq> None \<longleftrightarrow>
              int (length (orders resp)) = min (requested_limit rq) 100) \<and>
           (int (length (orders resp)) = min (requested_limit rq) 100 \<longrightarrow>
              rawResult \<noteq> [] \<and>
              project (last rawResult) = Inr (last (orders resp)) \<and>
              next_token resp =
                Some (buildContinuation
                  ((if sortBy query = Some Price then numeric_text (r_price (last rawResult))
                    else numeric_text (r_created_at (last rawResult)))
                   @ ''_'' @ r_id (last rawResult))) \<and>
              map_option base64_decode (next_token resp) =
                Some (Some
                  ((if sortBy query = Some Price then numeric_text (r_price (last rawResult))
                    else numeric_text (r_created_at (last rawResult)))
                   @ ''_'' @ r_id (last rawResult)))) \<and>
           (int (length (orders resp)) \<noteq> min (requested_limit rq) 100 \<longrightarrow>
              next_token resp = None)"
proof -
  from get_orders_asks_Inr [OF assms] obtain query sq rawResult where
    v: "validate_query regex rq = Inr query"
    and b: "build_query query = Inr sq"
    and m: "manyOrNone sq table = Inr rawResult"
    and n: "next_continuation query sq rawResult = Inr (next_token resp)"
    and o: "project_all rawResult = Inr (orders resp)"
    by blast
  note len = project_all_length [OF o]
  note f = validate_keys_fields [OF validate_query_Inr(1) [OF v]]
  from build_query_where [OF b] f(7)
  have l: "sql_limit sq = Some (min (requested_limit rq) 100)" by auto
  from f(8) have pos: "1 \<le> min (requested_limit rq) 100" by simp
  from manyOrNone_length [OF m] l
  have le: "int (length rawResult) \<le> min (requested_limit rq) 100" by auto
  have h: "handler_rows table query = Inr (rawResult, next_token resp)"
    unfolding handler_rows_def by (simp add: b m n)
  let ?joined = "(if sortBy query = Some Price then numeric_text (r_price (last rawResult))
                    else numeric_text (r_created_at (last rawResult)))
                   @ ''_'' @ r_id (last rawResult)"
  show ?thesis
  proof (cases "int (length rawResult) = min (requested_limit rq) 100")
    case True
    with pos have ne: "rawResult \<noteq> []" by auto
    with n l True have "next_token resp = Some (buildContinuation ?joined)"
      unfolding next_continuation_def sort_key_text_def by (simp split: if_splits)
    with v h o len le True ne project_all_last [OF o ne] show ?thesis
      by (simp add: buildContinuation_def base64_roundtrip)
  next
    case False
    with n l have "next_token resp = None"
      unfolding next_continuation_def by (simp split: if_splits)
    with v h o len le False show ?thesis by simp
  qed
qed

theorem continuation_emission_witness:
  "get_orders_asks example_regex example_table price_request =
     Inr \<lparr>orders = [example_json id_a 1 (Numeric 17002 1), example_json id_b 2 (Numeric 17001 1)],
          next_token = Some token_b\<rparr>
   \<and> base64_decode token_b = Some (''2_'' @ id_b)
   \<and> get_orders_asks example_regex example_table (token_request\<lparr>raw_sortBy := Some (Str ''price'')\<rparr>) =
       Inr \<lparr>orders = [example_json id_a 1 (Numeric 17002 1), example_json id_b 2 (Numeric 17001 1),
                       example_json id_c 2 (Numeric 17003 1)],
            next_token = None\<rparr>"
proof -
  let ?resp = "\<lparr>orders = [example_json id_a 1 (Numeric 17002 1), example_json id_b 2 (Numeric 17001 1)],
          next_token = Some token_b\<rparr>"
  from continuation_emission [OF price_response] obtain query rawResult where
    "validate_query example_regex price_request = Inr query"
    and "handler_rows example_table query = Inr (rawResult, next_token ?resp)"
    and e: "int (length (orders ?resp)) = min (requested_limit price_request) 100 \<longrightarrow>
      map_option base64_decode (next_token ?resp) =
        Some (Some ((if sortBy query = Some Price then numeric_text (r_price (last rawResult))
                    else numeric_text (r_created_at (last rawResult)))
                   @ ''_'' @ r_id (last rawResult)))"
    by blast
  then have "query = price_page"
    and "rawResult = [select_row (example_order id_a 1 (Numeric 17002 1)),
           select_row (example_order id_b 2 (Numeric 17001 1))]"
    by (simp_all add: price_request_valid price_page_handler)
  with e have "base64_decode token_b = Some (numeric_text (Numeric 2 0) @ ''_'' @ id_b)"
    by (simp add: requested_limit_def price_request_def token_request_def no_parameters_def
        price_page_def select_row_def example_order_def)
  moreover have "numeric_text (Numeric 2 0) = ''2''" by code_simp
  ultimately show ?thesis using price_response all_rows_response by simp
qed

text \<open>
  C8. For every row the gross amount is the currency price when there is one and the native
  price otherwise, the native gross amount is the native price, and each net amount is its
  gross amount times (10000 - feeBps) / 10000; a projected record carries these amounts. A
  price of 100 with feeBps 250 gives 97.5.
\<close>

theorem net_amount:
  "amount (gross (price_argument r)) =
     numeric_value (case r_currency_price r of Some c \<Rightarrow> c | None \<Rightarrow> r_price r)
   \<and> nativeAmount (gross (price_argument r)) = numeric_value (r_price r)
   \<and> amount (net (price_argument r)) =
       amount (gross (price_argument r)) * (10000 - of_int (r_fee_bps r)) / 10000
   \<and> nativeAmount (net (price_argument r)) =
       nativeAmount (gross (price_argument r)) * (10000 - of_int (r_fee_bps r)) / 10000
   \<and> (\<forall>j. project r = Inr j \<longrightarrow> price j = price_argument r)
   \<and> r_price row_100 = Numeric 100 0 \<and> r_currency_price row_100 = None
   \<and> r_fee_bps row_100 = 250
   \<and> amount (gross (price_argument row_100)) = 100
   \<and> amount (net (price_argument row_100)) = 975 / 10
   \<and> nativeAmount (net (price_argument row_100)) = 975 / 10
   \<and> getNetAmount 100 250 = 975 / 10"
proof -
  have "\<forall>j. project r = Inr j \<longrightarrow> price j = price_argument r"
    by (auto simp: project_def split: sum.splits)
  then show ?thesis
    by (simp add: price_argument_def getNetAmount_def Let_def row_100_def
      select_row_def example_order_def numeric_value_def)
qed

theorem net_amount_witness:
  "project row_100 = Inr (example_json id_a 100 (Numeric 17002 1))
   \<and> amount (gross (price (example_json id_a 100 (Numeric 17002 1)))) = 100
   \<and> amount (net (price (example_json id_a 100 (Numeric 17002 1)))) = 975 / 10
   \<and> nativeAmount (net (price (example_json id_a 100 (Numeric 17002 1)))) = 975 / 10"
proof -
  have p: "project row_100 = Inr (example_json id_a 100 (Numeric 17002 1))"
    unfolding row_100_def by (rule project_example)
  from net_amount [of row_100] p
  have "price (example_json id_a 100 (Numeric 17002 1)) = price_argument row_100"
    and "amount (gross (price_argument row_100)) = 100"
    and "amount (net (price_argument row_100)) = 975 / 10"
    and "nativeAmount (net (price_argument row_100)) = 975 / 10"
    by blast+
  with p show ?thesis by simp
qed

text \<open>
  C9. Every assembled statement has exactly one status predicate among its conditions,
  whatever other filters are present: fillable and approved, except that with a maker and
  status inactive it is the predicate (no-balance) or (fillable and not approved).
\<close>

theorem default_status_predicate:
  assumes "build_query query = Inr sq"
  shows "filter is_status_predicate (sql_where sq) =
           [if maker query \<noteq> None \<and> status query = Some Inactive then Potentially_valid
            else Fillable_approved]
         \<and> (\<forall>o_row. holds Fillable_approved o_row \<longleftrightarrow>
               orders_fillability_status o_row = ''fillable'' \<and>
               orders_approval_status o_row = ''approved'')
         \<and> (\<forall>o_row. holds Potentially_valid o_row \<longleftrightarrow>
               orders_fillability_status o_row = ''no-balance'' \<or>
               (orders_fillability_status o_row = ''fillable'' \<and>
                orders_approval_status o_row \<noteq> ''approved''))"
proof -
  from build_query_where [OF assms] obtain page where
    page: "pagination query = Inr page"
    and w: "sql_where sq = conditions query @ [orderStatusFilter query] @ page"
    by blast
  have "filter is_status_predicate (sql_where sq) = [orderStatusFilter query]"
    unfolding w
    by (simp add: conditions_no_status pagination_no_status [OF page] orderStatusFilter_cases)
  then show ?thesis
    by (simp add: orderStatusFilter_cases)
qed

theorem default_status_predicate_witness:
  "build_query (no_filters\<lparr>maker := Some example_maker, status := Some Inactive\<rparr>) =
     Inr \<lparr>sql_where = [Side_sell, Maker_eq example_maker, Taker_public, Potentially_valid],
          sql_order_by = [(Orders_created_at, DESC), (Orders_id, DESC)], sql_limit = None\<rparr>
   \<and> filter is_status_predicate [Side_sell, Maker_eq example_maker, Taker_public, Potentially_valid]
       = [Potentially_valid]"
proof -
  let ?q = "no_filters\<lparr>maker := Some example_maker, status := Some Inactive\<rparr>"
  let ?sq = "\<lparr>sql_where = [Side_sell, Maker_eq example_maker, Taker_public, Potentially_valid],
          sql_order_by = [(Orders_created_at, DESC), (Orders_id, DESC)], sql_limit = None\<rparr>"
  have b: "build_query ?q = Inr ?sq"
    by (simp add: build_query_def pagination_def conditions_def orderStatusFilter_def
        order_by_def no_filters_def)
  from default_status_predicate [OF b] show ?thesis
    using b by (simp add: no_filters_def)
qed



end
